theory Spec2Isabelle
  imports Complex_Main
begin

section \<open>Errors, effects and the hosting runtime\<close>

text \<open>
  Every \<open>throw\<close> and every rejected promise of the TypeScript sources is a value of
  \<open>error\<close>; a method returns \<open>(error + 'a) \<times> controller\<close>, the controller after the
  call together with either the thrown error (\<open>Inl\<close>) or the returned value (\<open>Inr\<close>).
  \<open>RefCountUnderflow\<close> is the name the specification gives to a stop without a matching
  start; it is part of the taxonomy so that statements about it can be written down.
  \<open>TypeError\<close> is what the language throws when a value that is not a function is
  called; \<open>StateReadOnly\<close> is what an assignment to the read-only \<open>state\<close> throws.
\<close>

datatype error =
    FetchError string
  | TypeError string
  | Destroyed
  | StateReadOnly
  | RefCountUnderflow
  | ComposeError string

text \<open>
  Calls that leave the controller (the fetch collaborator, \<open>console.error\<close>, the
  \<open>stateChange\<close> publication, \<open>setInterval\<close> and \<open>clearInterval\<close>) are appended to a
  trace in the order in which the code performs them. \<open>FetchSettled\<close> marks the moment
  the awaited fetch promise resolves or rejects.
\<close>

datatype 'p effect =
    FetchCalled string
  | FetchSettled
  | ConsoleError error
  | StateChange 'p
  | SetInterval nat int
  | ClearInterval nat

record 's BaseController =
  state :: 's

text \<open>
  A polling controller together with the part of the JavaScript runtime it talks to:
  \<open>timers\<close> are the repeating timers currently armed (handle, delay in milliseconds),
  \<open>nextTimerId\<close> is the next fresh handle. Handles start at 1: a handle returned by
  \<open>setInterval\<close> is truthy.
\<close>

record ('s, 'p) host = "'s BaseController" +
  timers :: "(nat \<times> int) list"
  nextTimerId :: nat
  trace :: "'p effect list"

definition emit :: "'p effect \<Rightarrow> ('s, 'p, 'z) host_scheme \<Rightarrow> ('s, 'p, 'z) host_scheme" where
  "emit e c = c\<lparr>trace := trace c @ [e]\<rparr>"

definition setInterval :: "int \<Rightarrow> ('s, 'p, 'z) host_scheme \<Rightarrow> nat \<times> ('s, 'p, 'z) host_scheme" where
  "setInterval delay c =
     (let h = nextTimerId c
      in (h, emit (SetInterval h delay)
               (c\<lparr>timers := timers c @ [(h, delay)], nextTimerId := Suc h\<rparr>)))"

definition clearInterval :: "nat \<Rightarrow> ('s, 'p, 'z) host_scheme \<Rightarrow> ('s, 'p, 'z) host_scheme" where
  "clearInterval h c =
     emit (ClearInterval h) (c\<lparr>timers := filter (\<lambda>t. fst t \<noteq> h) (timers c)\<rparr>)"

definition armed :: "nat \<Rightarrow> ('s, 'p, 'z) host_scheme \<Rightarrow> bool" where
  "armed h c = (h \<in> set (map fst (timers c)))"

text \<open>\<open>safelyExecute\<close> of util.ts: await the operation, swallow whatever it throws.\<close>

definition safelyExecute :: "(error + 'a) \<times> 'c \<Rightarrow> (error + 'a option) \<times> 'c" where
  "safelyExecute r =
     (case fst r of Inl e \<Rightarrow> (Inr None, snd r) | Inr v \<Rightarrow> (Inr (Some v), snd r))"

text \<open>
  An \<open>async\<close> method either runs to its end within the call (\<open>Completed\<close>, with what
  it returned or threw) or stops at an \<open>await\<close> whose promise is still pending
  (\<open>Suspended\<close>).
\<close>

datatype 'a progress = Suspended | Completed 'a

text \<open>Number of fetches called and not yet settled, read off a trace.\<close>

definition fetch_calls :: "'p effect list \<Rightarrow> nat" where
  "fetch_calls tr = length (filter (\<lambda>e. case e of FetchCalled _ \<Rightarrow> True | _ \<Rightarrow> False) tr)"

definition fetch_settlements :: "'p effect list \<Rightarrow> nat" where
  "fetch_settlements tr = length (filter (\<lambda>e. case e of FetchSettled \<Rightarrow> True | _ \<Rightarrow> False) tr)"

definition in_flight :: "'p effect list \<Rightarrow> nat" where
  "in_flight tr = fetch_calls tr - fetch_settlements tr"

section \<open>GasFeeController\<close>

record Eip1559GasFee =
  minWaitTimeEstimate :: int
  maxWaitTimeEstimate :: int
  suggestedMaxPriorityFeePerGas :: string
  suggestedMaxFeePerGas :: string
  calculatedTotalMinFee :: string

record LegacyGasFee =
  gasPrice :: string

text \<open>
  \<open>LegacyGasPriceEstimates\<close> and \<open>GasFeeEstimates\<close> both have the fields \<open>low\<close>,
  \<open>medium\<close> and \<open>high\<close>; they share them through one record.
\<close>

record 'fee tiers =
  low :: 'fee
  medium :: 'fee
  high :: 'fee

type_synonym LegacyGasPriceEstimates = "LegacyGasFee tiers"

record GasFeeEstimates = "Eip1559GasFee tiers" +
  estimatedNextBlockBaseFee :: string
  lastBlockBaseFee :: string
  lastBlockMinPriorityFee :: string
  lastBlockMaxPriorityFee :: string

record GasFeeState =
  legacyGasPriceEstimates :: "LegacyGasPriceEstimates option"
  gasFeeEstimates :: "GasFeeEstimates option"

definition defaultState :: GasFeeState where
  "defaultState = \<lparr>legacyGasPriceEstimates = None, gasFeeEstimates = None\<rparr>"

datatype patch_op = Replace | Add | Remove

datatype patch_value =
    LegacyValue "LegacyGasPriceEstimates option"
  | EstimatesValue "GasFeeEstimates option"

datatype patch = Patch (path: "string list") (op: patch_op) (pvalue: patch_value)

text \<open>
  The value of a property that should hold a function: \<open>Undefined\<close> when nothing was
  assigned to it, \<open>Function\<close> when it holds one.
\<close>

datatype property = Undefined | Function

record GasFeeController = "(GasFeeState, GasFeeState \<times> patch list) host" +
  mutex :: bool
  intervalId :: "nat option"
  intervalDelay :: int
  pollCount :: int
  destroyed :: bool
  fetchGasEstimates :: property

text \<open>
  The constructor: \<open>interval = 15000\<close> by default, \<open>state: {...defaultState, ...state}\<close>
  (a field missing from the partial state keeps \<open>undefined\<close>), a fresh unlocked
  \<open>Mutex\<close>, \<open>pollCount = 0\<close>, no timer. It takes a \<open>fetchGasEstimates\<close> argument and
  assigns it to nothing (lines 218 to 243 store only \<open>intervalDelay\<close>), so the property
  \<open>this.fetchGasEstimates\<close> that \<open>_fetchGasFeeEstimateData\<close> calls is undefined in every
  controller the constructor builds. \<open>Function\<close> stands for a collaborator put on the
  instance from outside.
\<close>

definition new_GasFeeController :: "int option \<Rightarrow> GasFeeState \<Rightarrow> GasFeeController" where
  "new_GasFeeController interval st =
     \<lparr>state = st, timers = [], nextTimerId = 1, trace = [],
      mutex = False, intervalId = None,
      intervalDelay = (case interval of None \<Rightarrow> 15000 | Some i \<Rightarrow> i),
      pollCount = 0, destroyed = False, fetchGasEstimates = Undefined\<rparr>"

text \<open>
  Modelled from the spec: \<open>BaseControllerV2\<close> (the StateContainer), whose \<open>update\<close> and
  \<open>destroy\<close> are not under src/. Section 4.2: the mutator receives a working copy of the
  snapshot and may modify it or return a full replacement; the container computes the
  Patch between the prior snapshot and the result; if the Patch is empty nothing is
  published and nothing changes, otherwise the new snapshot replaces the old one and
  \<open>stateChange\<close> is published with the new snapshot and the patch; after \<open>destroy\<close> an
  \<open>update\<close> fails with a Destroyed error. A mutator is a function from the working copy
  to the working copy as it left it and the value it returned, if any. The patch is
  computed by structural comparison, one entry per top-level field that differs.
\<close>

definition diff_patches :: "GasFeeState \<Rightarrow> GasFeeState \<Rightarrow> patch list" where
  "diff_patches old new =
     (if legacyGasPriceEstimates old = legacyGasPriceEstimates new then []
      else [Patch [''legacyGasPriceEstimates''] Replace
              (LegacyValue (legacyGasPriceEstimates new))]) @
     (if gasFeeEstimates old = gasFeeEstimates new then []
      else [Patch [''gasFeeEstimates''] Replace (EstimatesValue (gasFeeEstimates new))])"

definition update ::
  "(GasFeeState \<Rightarrow> GasFeeState \<times> GasFeeState option) \<Rightarrow> GasFeeController
     \<Rightarrow> error + GasFeeController" where
  "update mutator c =
     (if destroyed c then Inl Destroyed
      else
        (let worked = mutator (state c);
             nextState = (case snd worked of Some replacement \<Rightarrow> replacement
                          | None \<Rightarrow> fst worked);
             patches = diff_patches (state c) nextState
         in if patches = [] then Inr c
            else Inr (emit (StateChange (nextState, patches)) (c\<lparr>state := nextState\<rparr>))))"

text \<open>
  Modelled from the spec: the \<open>state\<close> accessor of \<open>BaseControllerV2\<close>, which is not
  under src/. Section 4.2: it returns a read-only view, callers must never be able to
  change the container's snapshot through it, and the snapshot is replaced only by a
  successful \<open>update\<close>. An assignment \<open>this.state = value\<close> therefore replaces nothing;
  in class code, which is strict, an assignment that an accessor refuses throws.
\<close>

definition assign_state ::
  "GasFeeState \<Rightarrow> GasFeeController \<Rightarrow> (error + unit) \<times> GasFeeController" where
  "assign_state newState c = (Inl StateReadOnly, c)"

text \<open>
  \<open>_fetchGasFeeEstimateData\<close>. The \<open>try\<close> block calls \<open>this.fetchGasEstimates()\<close>. When
  the property is undefined the call itself throws a TypeError, before anything is
  awaited, and the method runs to its end within the call. When the property holds a
  function the fetch is called and the method stops at its \<open>await\<close> until the promise
  settles with \<open>outcome\<close>. \<open>fetchGasFeeEstimateData_finish\<close> is the rest of the method
  once the call has produced estimates or thrown: on success it builds \<open>newEstimates\<close>
  (the object literal is \<open>newEstimates_of\<close>); on failure the \<open>catch\<close> logs the error and
  \<open>newEstimates\<close> stays undefined; the \<open>finally\<close> block calls \<open>update\<close> with a mutator
  that ignores the working copy and returns \<open>newEstimates\<close>, and its own
  \<open>finally { return newEstimates }\<close> overrides anything \<open>update\<close> throws. The
  \<open>Mutex\<close> of the instance is not consulted.
\<close>

definition newEstimates_of :: "GasFeeEstimates \<Rightarrow> GasFeeState" where
  "newEstimates_of estimates =
     \<lparr>legacyGasPriceEstimates = Some
        \<lparr>low = \<lparr>gasPrice = suggestedMaxFeePerGas (low estimates)\<rparr>,
         medium = \<lparr>gasPrice = suggestedMaxFeePerGas (medium estimates)\<rparr>,
         high = \<lparr>gasPrice = suggestedMaxFeePerGas (high estimates)\<rparr>\<rparr>,
      gasFeeEstimates = Some estimates\<rparr>"

definition fetchGasFeeEstimateData_finish ::
  "error + GasFeeEstimates \<Rightarrow> GasFeeController
     \<Rightarrow> (error + GasFeeState option) \<times> GasFeeController" where
  "fetchGasFeeEstimateData_finish outcome c =
     (let caught = (case outcome of
              Inr estimates \<Rightarrow> (Some (newEstimates_of estimates), c)
            | Inl e \<Rightarrow> (None, emit (ConsoleError e) c));
          newEstimates = fst caught;
          c2 = snd caught
      in case update (\<lambda>draft. (draft, newEstimates)) c2 of
           Inr c3 \<Rightarrow> (Inr newEstimates, c3)
         | Inl thrown \<Rightarrow> (Inr newEstimates, c2))"

definition fetchGasFeeEstimateData_begin ::
  "GasFeeController \<Rightarrow> (error + GasFeeState option) progress \<times> GasFeeController" where
  "fetchGasFeeEstimateData_begin c =
     (case fetchGasEstimates c of
        Undefined \<Rightarrow>
          (let finished = fetchGasFeeEstimateData_finish
                 (Inl (TypeError ''this.fetchGasEstimates is not a function'')) c
           in (Completed (fst finished), snd finished))
      | Function \<Rightarrow> (Suspended, emit (FetchCalled []) c))"

definition fetchGasFeeEstimateData_resume ::
  "error + GasFeeEstimates \<Rightarrow> GasFeeController
     \<Rightarrow> (error + GasFeeState option) \<times> GasFeeController" where
  "fetchGasFeeEstimateData_resume outcome c =
     fetchGasFeeEstimateData_finish outcome (emit FetchSettled c)"

text \<open>The refresh from its call to its return, when nothing else runs while it is suspended.\<close>

definition fetchGasFeeEstimateData ::
  "error + GasFeeEstimates \<Rightarrow> GasFeeController
     \<Rightarrow> (error + GasFeeState option) \<times> GasFeeController" where
  "fetchGasFeeEstimateData outcome c =
     (let begun = fetchGasFeeEstimateData_begin c
      in case fst begun of
           Completed returned \<Rightarrow> (returned, snd begun)
         | Suspended \<Rightarrow> fetchGasFeeEstimateData_resume outcome (snd begun))"

text \<open>
  \<open>_poll\<close> arms the repeating timer and stores its handle; \<open>_startPolling\<close> calls it when
  \<open>pollCount === 0\<close> and then increments \<open>pollCount\<close>. Both are \<open>async\<close> without an
  \<open>await\<close> inside, so they run to completion when called.
\<close>

definition poll :: "GasFeeController \<Rightarrow> GasFeeController" where
  "poll c = (let armedTimer = setInterval (intervalDelay c) c
             in (snd armedTimer)\<lparr>intervalId := Some (fst armedTimer)\<rparr>)"

definition startPolling :: "GasFeeController \<Rightarrow> GasFeeController" where
  "startPolling c =
     (let c1 = (if pollCount c = 0 then poll c else c)
      in c1\<lparr>pollCount := pollCount c1 + 1\<rparr>)"

text \<open>
  \<open>getGasFeeEstimatesAndStartPolling\<close>, cut at its \<open>await\<close>. The call tests
  \<open>pollCount > 0\<close>. If it holds, the method takes the state, calls \<open>_startPolling\<close> and
  returns, all within the call. Otherwise it calls \<open>_fetchGasFeeEstimateData\<close> and
  awaits the promise that call returns; the \<open>await\<close> gives way to whatever else is
  waiting to run even when the refresh has already run to its end. A suspended start
  is waiting either for the fetch of its refresh (\<open>AwaitFetch\<close>) or, the refresh having
  returned, for its turn to go on (\<open>AwaitRefresh\<close>, with what the refresh returned).
  Going on, it calls \<open>_startPolling\<close>, which tests \<open>pollCount === 0\<close> as the count is
  then, and returns the estimates.
\<close>

datatype start_pending = AwaitFetch | AwaitRefresh "error + GasFeeState option"

datatype start_progress =
    StartSuspended start_pending
  | StartReturned "error + GasFeeState option"

definition start_finish ::
  "error + GasFeeState option \<Rightarrow> GasFeeController \<Rightarrow> start_progress \<times> GasFeeController" where
  "start_finish awaited c =
     (case awaited of
        Inl e \<Rightarrow> (StartReturned (Inl e), c)
      | Inr gasEstimates \<Rightarrow> (StartReturned (Inr gasEstimates), startPolling c))"

definition getGasFeeEstimatesAndStartPolling_begin ::
  "GasFeeController \<Rightarrow> start_progress \<times> GasFeeController" where
  "getGasFeeEstimatesAndStartPolling_begin c =
     (if pollCount c > 0 then start_finish (Inr (Some (state c))) c
      else
        (let begun = fetchGasFeeEstimateData_begin c
         in case fst begun of
              Completed returned \<Rightarrow> (StartSuspended (AwaitRefresh returned), snd begun)
            | Suspended \<Rightarrow> (StartSuspended AwaitFetch, snd begun)))"

definition getGasFeeEstimatesAndStartPolling_resume ::
  "start_pending \<Rightarrow> error + GasFeeEstimates \<Rightarrow> GasFeeController
     \<Rightarrow> start_progress \<times> GasFeeController" where
  "getGasFeeEstimatesAndStartPolling_resume pending outcome c =
     (case pending of
        AwaitFetch \<Rightarrow>
          (let resumed = fetchGasFeeEstimateData_resume outcome c
           in (StartSuspended (AwaitRefresh (fst resumed)), snd resumed))
      | AwaitRefresh returned \<Rightarrow> start_finish returned c)"

text \<open>
  A start from its call to its return when nothing else runs while it is suspended: the
  call, and then its resumptions one after the other.
\<close>

definition awaited_start ::
  "error + GasFeeEstimates \<Rightarrow> GasFeeController
     \<Rightarrow> start_progress \<times> GasFeeController" where
  "awaited_start outcome c =
     (let begun = getGasFeeEstimatesAndStartPolling_begin c
      in case fst begun of
           StartReturned returned \<Rightarrow> begun
         | StartSuspended (AwaitRefresh returned) \<Rightarrow>
             getGasFeeEstimatesAndStartPolling_resume (AwaitRefresh returned) outcome (snd begun)
         | StartSuspended AwaitFetch \<Rightarrow>
             (let resumed = getGasFeeEstimatesAndStartPolling_resume AwaitFetch outcome (snd begun)
              in case fst resumed of
                   StartSuspended pending \<Rightarrow>
                     getGasFeeEstimatesAndStartPolling_resume pending outcome (snd resumed)
                 | StartReturned returned \<Rightarrow> resumed))"

text \<open>
  The callback given to \<open>setInterval\<close> by \<open>_poll\<close>:
  \<open>safelyExecute(() => this._fetchGasFeeEstimateData())\<close>, in two halves and as one step.
  The first half tells whether the refresh was left suspended. A timer that is not
  armed does not fire.
\<close>

definition interval_callback ::
  "error + GasFeeEstimates \<Rightarrow> GasFeeController
     \<Rightarrow> (error + GasFeeState option option) \<times> GasFeeController" where
  "interval_callback outcome c = safelyExecute (fetchGasFeeEstimateData outcome c)"

definition tick_begin :: "nat \<Rightarrow> GasFeeController \<Rightarrow> bool \<times> GasFeeController" where
  "tick_begin h c =
     (if armed h c
      then (let begun = fetchGasFeeEstimateData_begin c
            in (case fst begun of Suspended \<Rightarrow> True | Completed returned \<Rightarrow> False, snd begun))
      else (False, c))"

definition tick_resume :: "error + GasFeeEstimates \<Rightarrow> GasFeeController \<Rightarrow> GasFeeController" where
  "tick_resume outcome c = snd (safelyExecute (fetchGasFeeEstimateData_resume outcome c))"

definition tick :: "nat \<Rightarrow> error + GasFeeEstimates \<Rightarrow> GasFeeController \<Rightarrow> GasFeeController" where
  "tick h outcome c = (if armed h c then snd (interval_callback outcome c) else c)"

text \<open>
  \<open>resetState\<close> is the assignment \<open>this.state = defaultState\<close>. \<open>stopPolling\<close> clears the
  timer, sets \<open>pollCount\<close> to 0 and calls \<open>resetState\<close>; \<open>disconnectPoller\<close> decrements
  \<open>pollCount\<close> and calls \<open>stopPolling\<close> when the count is then 0; \<open>destroy\<close> calls the
  \<open>destroy\<close> of the base class and \<open>stopPolling\<close>. None of them catches what it calls.
\<close>

definition resetState :: "GasFeeController \<Rightarrow> (error + unit) \<times> GasFeeController" where
  "resetState c = assign_state defaultState c"

definition stopPolling :: "GasFeeController \<Rightarrow> (error + unit) \<times> GasFeeController" where
  "stopPolling c =
     (let c1 = (case intervalId c of Some h \<Rightarrow> clearInterval h c | None \<Rightarrow> c)
      in resetState (c1\<lparr>pollCount := 0\<rparr>))"

definition disconnectPoller :: "GasFeeController \<Rightarrow> (error + unit) \<times> GasFeeController" where
  "disconnectPoller c =
     (let c1 = c\<lparr>pollCount := pollCount c - 1\<rparr>
      in if pollCount c1 = 0 then stopPolling c1 else (Inr (), c1))"

definition destroy :: "GasFeeController \<Rightarrow> (error + unit) \<times> GasFeeController" where
  "destroy c = stopPolling (c\<lparr>destroyed := True\<rparr>)"








text \<open>
  The controller with what is suspended on it: the starts waiting to go on, in the order
  in which they were called, and the number of timer callbacks whose refresh is waiting
  for its fetch. An event is a call from outside (\<open>CallStart\<close>, \<open>CallStop\<close>), a firing of
  a timer, or the resumption of something suspended; resuming what is not there does
  nothing. Every order of events is allowed, so what holds after every sequence of
  events holds in every execution.
\<close>

record system =
  ctl :: GasFeeController
  starts_pending :: "start_pending list"
  ticks_pending :: nat

datatype event =
    CallStart
  | ResumeStart nat "error + GasFeeEstimates"
  | CallStop
  | FireTimer nat
  | ResumeTick "error + GasFeeEstimates"

definition boot :: "GasFeeController \<Rightarrow> system" where
  "boot c = \<lparr>ctl = c, starts_pending = [], ticks_pending = 0\<rparr>"

fun step :: "event \<Rightarrow> system \<Rightarrow> system" where
  "step CallStart s =
     (let begun = getGasFeeEstimatesAndStartPolling_begin (ctl s)
      in case fst begun of
           StartReturned returned \<Rightarrow> s\<lparr>ctl := snd begun\<rparr>
         | StartSuspended pending \<Rightarrow>
             s\<lparr>ctl := snd begun, starts_pending := starts_pending s @ [pending]\<rparr>)"
| "step (ResumeStart k outcome) s =
     (if k < length (starts_pending s)
      then (let resumed = getGasFeeEstimatesAndStartPolling_resume (starts_pending s ! k)
                            outcome (ctl s)
            in case fst resumed of
                 StartReturned returned \<Rightarrow>
                   s\<lparr>ctl := snd resumed,
                     starts_pending := take k (starts_pending s) @ drop (Suc k) (starts_pending s)\<rparr>
               | StartSuspended pending \<Rightarrow>
                   s\<lparr>ctl := snd resumed, starts_pending := (starts_pending s)[k := pending]\<rparr>)
      else s)"
| "step CallStop s = s\<lparr>ctl := snd (disconnectPoller (ctl s))\<rparr>"
| "step (FireTimer h) s =
     (let begun = tick_begin h (ctl s)
      in s\<lparr>ctl := snd begun,
           ticks_pending := (if fst begun then Suc (ticks_pending s) else ticks_pending s)\<rparr>)"
| "step (ResumeTick outcome) s =
     (if ticks_pending s > 0
      then s\<lparr>ctl := tick_resume outcome (ctl s), ticks_pending := ticks_pending s - 1\<rparr>
      else s)"

fun run_events :: "event list \<Rightarrow> system \<Rightarrow> system" where
  "run_events [] s = s"
| "run_events (e # es) s = run_events es (step e s)"






fun refresh_done :: "start_pending \<Rightarrow> bool" where
  "refresh_done AwaitFetch = False"
| "refresh_done (AwaitRefresh returned) = (\<not> isl returned)"

text \<open>
  The system a controller built by the constructor is in after a sequence of events,
  and what such a system keeps: the collaborator property undefined, the \<open>Mutex\<close>
  unlocked, the snapshot the constructor was given, no fetch called or settled, no
  timer callback suspended, and every suspended start past its refresh.
\<close>

definition built_run :: "int option \<Rightarrow> GasFeeState \<Rightarrow> event list \<Rightarrow> system" where
  "built_run interval st events = run_events events (boot (new_GasFeeController interval st))"

definition as_built :: "GasFeeState \<Rightarrow> system \<Rightarrow> bool" where
  "as_built st s =
     (fetchGasEstimates (ctl s) = Undefined \<and> \<not> mutex (ctl s) \<and> state (ctl s) = st
      \<and> fetch_calls (trace (ctl s)) = 0 \<and> fetch_settlements (trace (ctl s)) = 0
      \<and> ticks_pending s = 0 \<and> list_all refresh_done (starts_pending s))"

text \<open>Concrete controllers and payloads used to evaluate the model.\<close>

definition example_fee :: Eip1559GasFee where
  "example_fee = \<lparr>minWaitTimeEstimate = 15000, maxWaitTimeEstimate = 30000,
     suggestedMaxPriorityFeePerGas = ''0x2'', suggestedMaxFeePerGas = ''0x20'',
     calculatedTotalMinFee = ''0x1f''\<rparr>"

definition example_estimates :: GasFeeEstimates where
  "example_estimates = \<lparr>low = example_fee, medium = example_fee, high = example_fee,
     estimatedNextBlockBaseFee = ''0x1d'', lastBlockBaseFee = ''0x1c'',
     lastBlockMinPriorityFee = ''0x1'', lastBlockMaxPriorityFee = ''0x3''\<rparr>"

text \<open>
  \<open>fresh\<close> is built by the constructor with no arguments; \<open>seeded\<close> is built with a
  snapshot kept from an earlier session; \<open>stubbed\<close> is \<open>fresh\<close> with a collaborator put on
  the instance, which the constructor does not do.
\<close>

definition fresh :: GasFeeController where
  "fresh = new_GasFeeController None defaultState"

definition seeded :: GasFeeController where
  "seeded = new_GasFeeController None (newEstimates_of example_estimates)"

definition stubbed :: GasFeeController where
  "stubbed = fresh\<lparr>fetchGasEstimates := Function\<rparr>"

definition seeded_polling :: GasFeeController where
  "seeded_polling =
     ctl (run_events [CallStart, ResumeStart 0 (Inr example_estimates)] (boot seeded))"

definition stubbed_polling :: GasFeeController where
  "stubbed_polling =
     ctl (run_events [CallStart, ResumeStart 0 (Inr example_estimates),
                      ResumeStart 0 (Inr example_estimates)] (boot stubbed))"

section \<open>The legacy BaseController, TokenRatesController\<close>

text \<open>
  Modelled from the spec: the legacy \<open>BaseController\<close>, whose \<open>update\<close>, \<open>subscribe\<close> and
  \<open>notify\<close> are not under src/. Section 4.4: a child's state change is delivered to the
  listeners subscribed to it; an \<open>update\<close> with a partial state replaces the fields it
  names and the change is delivered. The delivery is one \<open>StateChange\<close> effect.
\<close>

definition legacy_update ::
  "('s \<Rightarrow> 's) \<Rightarrow> ('s, 's, 'z) host_scheme \<Rightarrow> ('s, 's, 'z) host_scheme" where
  "legacy_update assign c = emit (StateChange (assign (state c))) (c\<lparr>state := assign (state c)\<rparr>)"

record Token =
  address :: string
  decimals :: int
  symbol :: string

record TokenRatesState =
  contractExchangeRates :: "string \<rightharpoonup> real"

text \<open>
  A price as the pricing service sends it: a number, or anything else
  (\<open>typeof price === 'number'\<close> decides). The payload's \<open>prices\<close> may be missing.
\<close>

datatype js_price = JNumber real | JOther

type_synonym pricing_payload = "(string \<times> js_price) list option"

text \<open>
  The controller: \<open>disabled\<close> and \<open>config.nativeCurrency\<close> of the base class, the
  private \<open>handle\<close> and \<open>tokenList\<close>. The class keeps no reference count.
\<close>

record TokenRatesController = "(TokenRatesState, TokenRatesState) host" +
  disabled :: bool
  nativeCurrency :: string
  handle :: "nat option"
  tokenList :: "Token list"

text \<open>
  The fields as the constructor sets them before \<open>initialize\<close> runs: default config
  \<open>nativeCurrency: 'eth'\<close>, default state \<open>contractExchangeRates: {}\<close>, no timer.
\<close>

definition blank_TokenRatesController :: TokenRatesController where
  "blank_TokenRatesController =
     \<lparr>state = \<lparr>contractExchangeRates = Map.empty\<rparr>, timers = [], nextTimerId = 1, trace = [],
      disabled = False, nativeCurrency = ''eth'', handle = None, tokenList = []\<rparr>"

definition getPricingURL :: "string \<Rightarrow> string" where
  "getPricingURL query = ''https://exchanges.balanc3.net/pie?'' @ query @ ''&autoConversion=true''"

fun join :: "string \<Rightarrow> string list \<Rightarrow> string" where
  "join sep [] = []"
| "join sep [x] = x"
| "join sep (x # y # ys) = x @ sep @ join sep (y # ys)"

text \<open>
  \<open>toLowerCase\<close> on ASCII letters (an upper-case letter has codes 65 to 90; setting bit 5
  adds 32); \<open>pair.split('/')[0]\<close> is the text before the first slash.
\<close>

definition lower_char :: "char \<Rightarrow> char" where
  "lower_char ch =
     (if 65 \<le> (of_char ch :: nat) \<and> (of_char ch :: nat) \<le> 90
      then (case ch of Char b0 b1 b2 b3 b4 b5 b6 b7 \<Rightarrow> Char b0 b1 b2 b3 b4 True b6 b7)
      else ch)"

definition toLowerCase :: "string \<Rightarrow> string" where
  "toLowerCase s = map lower_char s"

definition before_slash :: "string \<Rightarrow> string" where
  "before_slash pair = takeWhile (\<lambda>ch. ch \<noteq> CHR ''/'') pair"

text \<open>
  \<open>updateExchangeRates\<close> in the two halves its \<open>await\<close> cuts it into. The first half
  returns at once when the controller is disabled or tracks no token (\<open>False\<close>: nothing
  is awaited); otherwise it builds the query and calls the fetch (\<open>True\<close>). The second
  half runs when the fetch settles: a rejection propagates to the caller; a payload is
  folded into a new rate table, which \<open>update\<close> stores. \<open>toChecksumAddress\<close> of
  ethereumjs-util is a parameter.
\<close>

definition updateExchangeRates_begin :: "TokenRatesController \<Rightarrow> bool \<times> TokenRatesController" where
  "updateExchangeRates_begin c =
     (if disabled c \<or> length (tokenList c) = 0 then (False, c)
      else
        (let pairs = map (\<lambda>token. ''pairs[]='' @ address token @ ''/'' @ nativeCurrency c)
                       (tokenList c);
             query = join ''&'' pairs
         in (True, emit (FetchCalled (getPricingURL query)) c)))"

definition store_price ::
  "(string \<Rightarrow> string) \<Rightarrow> string \<times> js_price \<Rightarrow> (string \<rightharpoonup> real) \<Rightarrow> (string \<rightharpoonup> real)" where
  "store_price toChecksumAddress entry newContractExchangeRates =
     newContractExchangeRates
       (toChecksumAddress (toLowerCase (before_slash (fst entry)))
          \<mapsto> (case snd entry of JNumber price \<Rightarrow> price | JOther \<Rightarrow> 0))"

definition updateExchangeRates_resume ::
  "(string \<Rightarrow> string) \<Rightarrow> error + pricing_payload \<Rightarrow> TokenRatesController
     \<Rightarrow> (error + unit) \<times> TokenRatesController" where
  "updateExchangeRates_resume toChecksumAddress outcome c =
     (let c1 = emit FetchSettled c
      in case outcome of
           Inl e \<Rightarrow> (Inl e, c1)
         | Inr json \<Rightarrow>
             (let prices = (case json of None \<Rightarrow> [] | Some ps \<Rightarrow> ps);
                  newContractExchangeRates = fold (store_price toChecksumAddress) prices Map.empty
              in (Inr (),
                  legacy_update (\<lambda>s. s\<lparr>contractExchangeRates := newContractExchangeRates\<rparr>) c1)))"

definition updateExchangeRates ::
  "(string \<Rightarrow> string) \<Rightarrow> error + pricing_payload \<Rightarrow> TokenRatesController
     \<Rightarrow> (error + unit) \<times> TokenRatesController" where
  "updateExchangeRates toChecksumAddress outcome c =
     (let begun = updateExchangeRates_begin c
      in if fst begun then updateExchangeRates_resume toChecksumAddress outcome (snd begun)
         else (Inr (), snd begun))"

text \<open>
  The \<open>interval\<close> setter: clear the timer \<open>handle\<close> refers to, if any; start
  \<open>safelyExecute(() => this.updateExchangeRates())\<close>, which runs up to its \<open>await\<close>
  before the setter goes on; arm a new repeating timer and store its handle.
\<close>

definition set_interval :: "int \<Rightarrow> TokenRatesController \<Rightarrow> TokenRatesController" where
  "set_interval interval c =
     (let c1 = (case handle c of Some h \<Rightarrow> clearInterval h c | None \<Rightarrow> c);
          c2 = snd (updateExchangeRates_begin c1);
          armedTimer = setInterval interval c2
      in (snd armedTimer)\<lparr>handle := Some (fst armedTimer)\<rparr>)"

text \<open>The \<open>tokens\<close> setter, and the timer callback as one step.\<close>

definition set_tokens :: "Token list \<Rightarrow> TokenRatesController \<Rightarrow> TokenRatesController" where
  "set_tokens tokens c = snd (updateExchangeRates_begin (c\<lparr>tokenList := tokens\<rparr>))"

definition rates_tick ::
  "nat \<Rightarrow> (string \<Rightarrow> string) \<Rightarrow> error + pricing_payload \<Rightarrow> TokenRatesController
     \<Rightarrow> TokenRatesController" where
  "rates_tick h toChecksumAddress outcome c =
     (if armed h c then snd (safelyExecute (updateExchangeRates toChecksumAddress outcome c))
      else c)"

definition rates_timer_inv :: "TokenRatesController \<Rightarrow> bool" where
  "rates_timer_inv c = (filter (\<lambda>t. Some (fst t) \<noteq> handle c) (timers c) = [])"

definition example_token :: Token where
  "example_token = \<lparr>address = ''0xAbC'', decimals = 18, symbol = ''ABC''\<rparr>"

definition disabled_tracker :: TokenRatesController where
  "disabled_tracker = blank_TokenRatesController\<lparr>disabled := True, tokenList := [example_token]\<rparr>"

section \<open>ComposableController\<close>

text \<open>
  Child controllers are objects that several lists may mention, and the context map is
  an object the composite shares with its children, so both live in a store: \<open>heap\<close>
  maps a reference to the child it denotes, \<open>contexts\<close> a reference to a context
  object. A listener is the closure \<open>(state) => { this.update({ [name]: state }) }\<close> of
  the setter, identified by the name it captured. The field \<open>context\<close> of a controller
  is \<open>context_ref\<close> here. \<open>deliveries\<close> records the listener calls that reached the
  aggregate. What a child's \<open>onComposed\<close> does is the child's own; it is a parameter
  here, a function from the context the child sees to the error it throws, if any.
\<close>

type_synonym ref = nat

datatype listener = Forward string

record 's legacy = "'s BaseController" +
  context_ref :: ref

record 'st child = "'st legacy" +
  constructor_name :: string
  listeners :: "listener list"
  onComposed :: "(string \<rightharpoonup> ref) \<Rightarrow> error option"

record 'st ComposableController = "(string \<rightharpoonup> 'st) legacy" +
  internalControllers :: "ref list"
  heap :: "ref \<Rightarrow> 'st child"
  contexts :: "ref \<Rightarrow> (string \<rightharpoonup> ref)"
  nextContext :: ref
  deliveries :: "(string \<times> 'st) list"

text \<open>
  Modelled from the spec: the parts of the legacy \<open>BaseController\<close> that the setter
  calls and that are not under src/. Section 4.4: each child's state change is
  subscribed directly, and recomputes the slot of the aggregate keyed by the child's
  name. \<open>subscribe\<close> appends a listener to the child's listeners; a child that changes
  its state calls its listeners in order; \<open>update\<close> on the composite with one key
  replaces that slot, with \<open>overwrite\<close> it replaces the whole aggregate.
\<close>

definition subscribe :: "ref \<Rightarrow> listener \<Rightarrow> 'st ComposableController \<Rightarrow> 'st ComposableController" where
  "subscribe a l w = w\<lparr>heap := (heap w)(a := (heap w a)\<lparr>listeners := listeners (heap w a) @ [l]\<rparr>)\<rparr>"

definition call_listener :: "listener \<Rightarrow> 'st \<Rightarrow> 'st ComposableController \<Rightarrow> 'st ComposableController" where
  "call_listener l s w =
     (case l of Forward name \<Rightarrow>
        w\<lparr>state := (state w)(name \<mapsto> s), deliveries := deliveries w @ [(name, s)]\<rparr>)"

definition child_update :: "ref \<Rightarrow> 'st \<Rightarrow> 'st ComposableController \<Rightarrow> 'st ComposableController" where
  "child_update a s w =
     (let w1 = w\<lparr>heap := (heap w)(a := (heap w a)\<lparr>state := s\<rparr>)\<rparr>
      in fold (\<lambda>l. call_listener l s) (listeners (heap w1 a)) w1)"

text \<open>
  The body of the first \<open>forEach\<close> of the setter, with the local \<open>initialState\<close> carried
  along: enter the child in the context under its name, record its state, hand it the
  context object, subscribe the forwarding listener.
\<close>

definition wire ::
  "ref \<Rightarrow> 'st ComposableController \<times> (string \<rightharpoonup> 'st)
     \<Rightarrow> 'st ComposableController \<times> (string \<rightharpoonup> 'st)" where
  "wire a acc =
     (let w = fst acc;
          initialState = snd acc;
          name = constructor_name (heap w a);
          w1 = w\<lparr>contexts := (contexts w)(context_ref w := (contexts w (context_ref w))(name \<mapsto> a))\<rparr>;
          initialState1 = initialState(name \<mapsto> state (heap w1 a));
          w2 = w1\<lparr>heap := (heap w1)(a := (heap w1 a)\<lparr>context_ref := context_ref w1\<rparr>)\<rparr>;
          w3 = subscribe a (Forward name) w2
      in (w3, initialState1))"

text \<open>The second \<open>forEach\<close>: the \<open>onComposed\<close> hooks in list order; the first throw ends it.\<close>

fun compose_all :: "ref list \<Rightarrow> 'st ComposableController \<Rightarrow> error option" where
  "compose_all [] w = None"
| "compose_all (a # rest) w =
     (case onComposed (heap w a) (contexts w (context_ref (heap w a))) of
        Some e \<Rightarrow> Some e
      | None \<Rightarrow> compose_all rest w)"

definition set_controllers ::
  "ref list \<Rightarrow> 'st ComposableController \<Rightarrow> (error + unit) \<times> 'st ComposableController" where
  "set_controllers controllers w =
     (let w1 = w\<lparr>internalControllers := controllers\<rparr>;
          fresh_context = nextContext w1;
          w2 = w1\<lparr>contexts := (contexts w1)(fresh_context := Map.empty),
                  nextContext := Suc fresh_context,
                  context_ref := fresh_context\<rparr>;
          wired = fold wire controllers (w2, Map.empty);
          w3 = fst wired;
          initialState = snd wired
      in case compose_all controllers w3 of
           Some e \<Rightarrow> (Inl e, w3)
         | None \<Rightarrow> (Inr (), w3\<lparr>state := initialState\<rparr>))"

text \<open>
  A composite before its first assignment, over a store of children that have no
  listeners yet; child \<open>a\<close> has the name and the state the two functions give it.
\<close>

definition new_ComposableController ::
  "(ref \<Rightarrow> string) \<Rightarrow> (ref \<Rightarrow> 'st) \<Rightarrow> 'st ComposableController" where
  "new_ComposableController names states =
     \<lparr>state = Map.empty, context_ref = 0, internalControllers = [],
      heap = (\<lambda>a. \<lparr>state = states a, context_ref = 0, constructor_name = names a,
                    listeners = [], onComposed = (\<lambda>ctx. None)\<rparr>),
      contexts = (\<lambda>k. Map.empty), nextContext = 1, deliveries = []\<rparr>"

text \<open>Three children: two of different classes, and a second instance of the first class.\<close>

definition example_names :: "ref \<Rightarrow> string" where
  "example_names a = (if a = 1 then ''PreferencesController'' else ''AssetsController'')"

definition example_composite :: "nat ComposableController" where
  "example_composite = new_ComposableController example_names (\<lambda>a. 10 * a)"

section \<open>AssetsController and PreferencesController: the token list\<close>

datatype Collectible =
  Collectible (collectible_address: string) (tokenId: int) (collectible_name: string)
    (image: string)

datatype ContactEntry = ContactEntry (contact_name: string) (contact_address: string)

text \<open>
  \<open>AssetsState\<close> has the fields \<open>collectibles\<close> and \<open>tokens\<close>; \<open>PreferencesState\<close> has
  them too, and four more. \<open>addToken\<close> has the same text in both classes and is one
  definition over every state with these two fields.
\<close>

record AssetsState =
  collectibles :: "Collectible list"
  tokens :: "Token list"

record PreferencesState = AssetsState +
  featureFlags :: "string \<rightharpoonup> bool"
  identities :: "string \<rightharpoonup> ContactEntry"
  lostIdentities :: "string \<rightharpoonup> ContactEntry"
  selectedAddress :: string

type_synonym AssetsController = "(AssetsState, AssetsState) host"

type_synonym PreferencesController = "(PreferencesState, PreferencesState) host"

text \<open>
  \<open>Array.prototype.indexOf\<close>: the first index holding the element, \<open>-1\<close> when there is
  none. An assignment \<open>tokens[i] = v\<close> with \<open>i\<close> inside the array replaces that element;
  with \<open>i = -1\<close> it sets a property of that name and changes no element. \<open>indexOf\<close>
  compares by identity; here elements are compared as values, which finds the same
  position for the entry \<open>find\<close> returned: that entry is the first with its address, so
  no entry before it is equal to it.
\<close>

fun indexOf :: "'a list \<Rightarrow> 'a \<Rightarrow> int" where
  "indexOf [] x = - 1"
| "indexOf (y # ys) x =
     (if y = x then 0 else (let i = indexOf ys x in if i < 0 then - 1 else i + 1))"

definition assign_index :: "'a list \<Rightarrow> int \<Rightarrow> 'a \<Rightarrow> 'a list" where
  "assign_index xs i v = (if 0 \<le> i \<and> i < int (length xs) then xs[nat i := v] else xs)"

definition addToken ::
  "(string \<Rightarrow> string) \<Rightarrow> string \<Rightarrow> string \<Rightarrow> int
     \<Rightarrow> ('z AssetsState_scheme, 'z AssetsState_scheme, 'y) host_scheme
     \<Rightarrow> Token list \<times> ('z AssetsState_scheme, 'z AssetsState_scheme, 'y) host_scheme" where
  "addToken toChecksumAddress address0 symbol0 decimals0 c =
     (let checksummed = toChecksumAddress address0;
          newEntry = \<lparr>address = checksummed, decimals = decimals0, symbol = symbol0\<rparr>;
          stored = tokens (state c);
          previousEntry = List.find (\<lambda>token. address token = checksummed) stored;
          newTokens = (case previousEntry of
              Some previous \<Rightarrow> assign_index stored (indexOf stored previous) newEntry
            | None \<Rightarrow> stored @ [newEntry])
      in (newTokens, legacy_update (\<lambda>s. s\<lparr>tokens := newTokens\<rparr>) c))"

text \<open>A sequence of \<open>addToken\<close> calls (address, symbol, decimals), each on the result of the last.\<close>

definition addTokens ::
  "(string \<Rightarrow> string) \<Rightarrow> (string \<times> string \<times> int) list
     \<Rightarrow> ('z AssetsState_scheme, 'z AssetsState_scheme, 'y) host_scheme
     \<Rightarrow> ('z AssetsState_scheme, 'z AssetsState_scheme, 'y) host_scheme" where
  "addTokens toChecksumAddress requests c =
     fold (\<lambda>request c'. snd (addToken toChecksumAddress (fst request) (fst (snd request))
                               (snd (snd request)) c')) requests c"

definition new_AssetsController :: AssetsController where
  "new_AssetsController =
     \<lparr>state = \<lparr>collectibles = [], tokens = []\<rparr>, timers = [], nextTimerId = 1, trace = []\<rparr>"

definition new_PreferencesController :: PreferencesController where
  "new_PreferencesController =
     \<lparr>state = \<lparr>collectibles = [], tokens = [], featureFlags = Map.empty,
        identities = Map.empty, lostIdentities = Map.empty, selectedAddress = []\<rparr>,
      timers = [], nextTimerId = 1, trace = []\<rparr>"

definition token_holder :: AssetsController where
  "token_holder = new_AssetsController\<lparr>state :=
     \<lparr>collectibles = [],
      tokens = [\<lparr>address = ''0xabc'', decimals = 18, symbol = ''ONE''\<rparr>,
                \<lparr>address = ''0x123'', decimals = 8, symbol = ''TWO''\<rparr>]\<rparr>\<rparr>"

section \<open>GasFeeController: refresh, start and stop\<close>

lemmas refresh_defs = fetchGasFeeEstimateData_def fetchGasFeeEstimateData_resume_def
  fetchGasFeeEstimateData_begin_def fetchGasFeeEstimateData_finish_def update_def emit_def

lemmas gas_defs = refresh_defs interval_callback_def safelyExecute_def tick_def
  startPolling_def poll_def setInterval_def clearInterval_def disconnectPoller_def
  stopPolling_def resetState_def assign_state_def armed_def tick_begin_def tick_resume_def
  start_finish_def getGasFeeEstimatesAndStartPolling_begin_def
  getGasFeeEstimatesAndStartPolling_resume_def awaited_start_def

lemma diff_patches_same: "diff_patches s s = []"
  by (simp add: diff_patches_def)

lemma diff_patches_empty: "(diff_patches s t = []) = (s = t)"
  by (cases s, cases t) (auto simp: diff_patches_def)

lemma finish_failed:
  "fetchGasFeeEstimateData_finish (Inl e) c = (Inr None, c\<lparr>trace := trace c @ [ConsoleError e]\<rparr>)"
  by (simp add: fetchGasFeeEstimateData_finish_def update_def emit_def diff_patches_same Let_def)

lemma finish_returns:
  "fst (fetchGasFeeEstimateData_finish outcome c)
     = Inr (case outcome of Inl e \<Rightarrow> None | Inr estimates \<Rightarrow> Some (newEstimates_of estimates))"
  by (cases outcome) (simp_all add: fetchGasFeeEstimateData_finish_def update_def Let_def)

lemma finish_frame:
  "pollCount (snd (fetchGasFeeEstimateData_finish outcome c)) = pollCount c
   \<and> timers (snd (fetchGasFeeEstimateData_finish outcome c)) = timers c
   \<and> intervalId (snd (fetchGasFeeEstimateData_finish outcome c)) = intervalId c
   \<and> nextTimerId (snd (fetchGasFeeEstimateData_finish outcome c)) = nextTimerId c
   \<and> intervalDelay (snd (fetchGasFeeEstimateData_finish outcome c)) = intervalDelay c
   \<and> mutex (snd (fetchGasFeeEstimateData_finish outcome c)) = mutex c
   \<and> destroyed (snd (fetchGasFeeEstimateData_finish outcome c)) = destroyed c
   \<and> fetchGasEstimates (snd (fetchGasFeeEstimateData_finish outcome c)) = fetchGasEstimates c"
  by (cases outcome) (simp_all add: fetchGasFeeEstimateData_finish_def update_def emit_def Let_def)

lemma begin_undefined:
  "fetchGasEstimates c = Undefined \<Longrightarrow>
     fetchGasFeeEstimateData_begin c
       = (Completed (Inr None),
          c\<lparr>trace := trace c @ [ConsoleError (TypeError ''this.fetchGasEstimates is not a function'')]\<rparr>)"
  by (simp add: fetchGasFeeEstimateData_begin_def finish_failed Let_def)

lemma begin_function:
  "fetchGasEstimates c = Function \<Longrightarrow>
     fetchGasFeeEstimateData_begin c = (Suspended, c\<lparr>trace := trace c @ [FetchCalled []]\<rparr>)"
  by (simp add: fetchGasFeeEstimateData_begin_def emit_def)

lemma refresh_begin_frame:
  "pollCount (snd (fetchGasFeeEstimateData_begin c)) = pollCount c
   \<and> timers (snd (fetchGasFeeEstimateData_begin c)) = timers c
   \<and> intervalId (snd (fetchGasFeeEstimateData_begin c)) = intervalId c
   \<and> nextTimerId (snd (fetchGasFeeEstimateData_begin c)) = nextTimerId c
   \<and> intervalDelay (snd (fetchGasFeeEstimateData_begin c)) = intervalDelay c
   \<and> mutex (snd (fetchGasFeeEstimateData_begin c)) = mutex c
   \<and> destroyed (snd (fetchGasFeeEstimateData_begin c)) = destroyed c
   \<and> fetchGasEstimates (snd (fetchGasFeeEstimateData_begin c)) = fetchGasEstimates c
   \<and> state (snd (fetchGasFeeEstimateData_begin c)) = state c"
  by (cases "fetchGasEstimates c") (simp_all add: begin_undefined begin_function)

lemma begin_not_thrown:
  "fst (fetchGasFeeEstimateData_begin c) \<noteq> Completed (Inl e)"
  by (cases "fetchGasEstimates c") (simp_all add: begin_undefined begin_function)

lemma refresh_resume_frame:
  "pollCount (snd (fetchGasFeeEstimateData_resume outcome c)) = pollCount c
   \<and> timers (snd (fetchGasFeeEstimateData_resume outcome c)) = timers c
   \<and> intervalId (snd (fetchGasFeeEstimateData_resume outcome c)) = intervalId c
   \<and> nextTimerId (snd (fetchGasFeeEstimateData_resume outcome c)) = nextTimerId c
   \<and> intervalDelay (snd (fetchGasFeeEstimateData_resume outcome c)) = intervalDelay c
   \<and> mutex (snd (fetchGasFeeEstimateData_resume outcome c)) = mutex c
   \<and> fetchGasEstimates (snd (fetchGasFeeEstimateData_resume outcome c)) = fetchGasEstimates c"
  by (simp add: fetchGasFeeEstimateData_resume_def finish_frame emit_def)

lemma resume_returns:
  "fst (fetchGasFeeEstimateData_resume outcome c)
     = Inr (case outcome of Inl e \<Rightarrow> None | Inr estimates \<Rightarrow> Some (newEstimates_of estimates))"
  by (simp add: fetchGasFeeEstimateData_resume_def finish_returns)

lemma fetch_undefined:
  "fetchGasEstimates c = Undefined \<Longrightarrow>
     fetchGasFeeEstimateData outcome c
       = (Inr None,
          c\<lparr>trace := trace c @ [ConsoleError (TypeError ''this.fetchGasEstimates is not a function'')]\<rparr>)"
  by (simp add: fetchGasFeeEstimateData_def begin_undefined Let_def)

lemma fetch_function:
  "fetchGasEstimates c = Function \<Longrightarrow>
     fetchGasFeeEstimateData outcome c
       = fetchGasFeeEstimateData_resume outcome (c\<lparr>trace := trace c @ [FetchCalled []]\<rparr>)"
  by (simp add: fetchGasFeeEstimateData_def begin_function Let_def)

lemma fetch_frame:
  "pollCount (snd (fetchGasFeeEstimateData outcome c)) = pollCount c
   \<and> timers (snd (fetchGasFeeEstimateData outcome c)) = timers c
   \<and> intervalId (snd (fetchGasFeeEstimateData outcome c)) = intervalId c
   \<and> nextTimerId (snd (fetchGasFeeEstimateData outcome c)) = nextTimerId c
   \<and> intervalDelay (snd (fetchGasFeeEstimateData outcome c)) = intervalDelay c
   \<and> mutex (snd (fetchGasFeeEstimateData outcome c)) = mutex c
   \<and> fetchGasEstimates (snd (fetchGasFeeEstimateData outcome c)) = fetchGasEstimates c"
  by (cases "fetchGasEstimates c") (simp_all add: fetch_undefined fetch_function refresh_resume_frame)

lemma fetch_no_throw: "\<not> isl (fst (fetchGasFeeEstimateData outcome c))"
  by (cases "fetchGasEstimates c") (simp_all add: fetch_undefined fetch_function resume_returns)

lemma fetch_failure:
  "fetchGasFeeEstimateData (Inl e) c
     = (Inr None,
        c\<lparr>trace := trace c @
            (case fetchGasEstimates c of
               Function \<Rightarrow> [FetchCalled [], FetchSettled, ConsoleError e]
             | Undefined \<Rightarrow>
                 [ConsoleError (TypeError ''this.fetchGasEstimates is not a function'')])\<rparr>)"
  by (cases "fetchGasEstimates c")
     (simp_all add: fetch_undefined fetch_function fetchGasFeeEstimateData_resume_def
        finish_failed emit_def)

lemma tick_frame:
  "pollCount (tick h outcome c) = pollCount c
   \<and> timers (tick h outcome c) = timers c
   \<and> intervalId (tick h outcome c) = intervalId c"
  by (simp add: tick_def interval_callback_def safelyExecute_def fetch_frame split: sum.splits)

text \<open>
  C1. When the fetch of a refresh fails, \<open>_fetchGasFeeEstimateData\<close> catches the error:
  it returns \<open>undefined\<close> without throwing, and the controller differs from the one
  before the call only in its trace (with a collaborator: fetch called, fetch settled,
  error logged; without one: the TypeError of the call logged), so the state snapshot,
  the timers, the timer handle and the poll count are as they were. In a controller
  whose collaborator property is undefined the snapshot is unchanged whatever outcome
  is offered. The timer callback neither throws nor changes the armed timers, whatever
  the outcome of the fetch, and no outcome makes the refresh throw.
\<close>

theorem C1_fetch_failure_is_contained:
  "fetchGasFeeEstimateData (Inl e) c
     = (Inr None,
        c\<lparr>trace := trace c @
            (case fetchGasEstimates c of
               Function \<Rightarrow> [FetchCalled [], FetchSettled, ConsoleError e]
             | Undefined \<Rightarrow>
                 [ConsoleError (TypeError ''this.fetchGasEstimates is not a function'')])\<rparr>)
   \<and> state (snd (fetchGasFeeEstimateData (Inl e) c)) = state c
   \<and> state (snd (fetchGasFeeEstimateData outcome (c\<lparr>fetchGasEstimates := Undefined\<rparr>))) = state c
   \<and> \<not> isl (fst (fetchGasFeeEstimateData outcome c))
   \<and> fst (interval_callback (Inl e) c) = Inr (Some None)
   \<and> \<not> isl (fst (interval_callback outcome c))
   \<and> state (tick h (Inl e) c) = state c
   \<and> timers (tick h outcome c) = timers c
   \<and> intervalId (tick h outcome c) = intervalId c
   \<and> pollCount (tick h outcome c) = pollCount c"
proof (intro conjI)
  show "fetchGasFeeEstimateData (Inl e) c
     = (Inr None,
        c\<lparr>trace := trace c @
            (case fetchGasEstimates c of
               Function \<Rightarrow> [FetchCalled [], FetchSettled, ConsoleError e]
             | Undefined \<Rightarrow>
                 [ConsoleError (TypeError ''this.fetchGasEstimates is not a function'')])\<rparr>)"
    by (rule fetch_failure)
  show "state (snd (fetchGasFeeEstimateData (Inl e) c)) = state c"
    by (simp add: fetch_failure)
  show "state (snd (fetchGasFeeEstimateData outcome (c\<lparr>fetchGasEstimates := Undefined\<rparr>))) = state c"
    by (simp add: fetch_undefined)
  show "\<not> isl (fst (fetchGasFeeEstimateData outcome c))"
    by (rule fetch_no_throw)
  show "fst (interval_callback (Inl e) c) = Inr (Some None)"
    by (simp add: interval_callback_def safelyExecute_def fetch_failure)
  show "\<not> isl (fst (interval_callback outcome c))"
    by (simp add: interval_callback_def safelyExecute_def split: sum.splits)
  show "state (tick h (Inl e) c) = state c"
    by (simp add: tick_def interval_callback_def safelyExecute_def fetch_failure)
  show "timers (tick h outcome c) = timers c" "intervalId (tick h outcome c) = intervalId c"
    "pollCount (tick h outcome c) = pollCount c"
    by (simp_all add: tick_frame)
qed


lemma fetch_calls_append: "fetch_calls (xs @ ys) = fetch_calls xs + fetch_calls ys"
  by (simp add: fetch_calls_def)

lemma fetch_settlements_append:
  "fetch_settlements (xs @ ys) = fetch_settlements xs + fetch_settlements ys"
  by (simp add: fetch_settlements_def)

lemma startPolling_frame:
  "pollCount (startPolling c) = pollCount c + 1
   \<and> state (startPolling c) = state c
   \<and> mutex (startPolling c) = mutex c
   \<and> fetchGasEstimates (startPolling c) = fetchGasEstimates c
   \<and> fetch_calls (trace (startPolling c)) = fetch_calls (trace c)
   \<and> fetch_settlements (trace (startPolling c)) = fetch_settlements (trace c)"
  by (simp add: startPolling_def poll_def setInterval_def emit_def Let_def
      fetch_calls_append fetch_settlements_append)
     (simp add: fetch_calls_def fetch_settlements_def)

lemma startPolling_timers:
  "timers (startPolling c)
     = timers c @ (if pollCount c = 0 then [(nextTimerId c, intervalDelay c)] else [])
   \<and> intervalId (startPolling c)
     = (if pollCount c = 0 then Some (nextTimerId c) else intervalId c)
   \<and> trace (startPolling c)
     = trace c @ (if pollCount c = 0 then [SetInterval (nextTimerId c) (intervalDelay c)] else [])"
  by (simp add: startPolling_def poll_def setInterval_def emit_def Let_def)

lemma stop_pollCount: "pollCount (snd (disconnectPoller c)) = pollCount c - 1"
  by (simp add: disconnectPoller_def stopPolling_def resetState_def assign_state_def
      clearInterval_def emit_def Let_def split: option.splits)

lemma stop_frame:
  "state (snd (disconnectPoller c)) = state c
   \<and> mutex (snd (disconnectPoller c)) = mutex c
   \<and> fetchGasEstimates (snd (disconnectPoller c)) = fetchGasEstimates c
   \<and> fetch_calls (trace (snd (disconnectPoller c))) = fetch_calls (trace c)
   \<and> fetch_settlements (trace (snd (disconnectPoller c))) = fetch_settlements (trace c)"
  by (simp add: disconnectPoller_def stopPolling_def resetState_def assign_state_def
      clearInterval_def emit_def Let_def fetch_calls_append fetch_settlements_append
      split: option.splits)
     (simp add: fetch_calls_def fetch_settlements_def)

lemma stop_result:
  "fst (disconnectPoller c) = (if pollCount c = 1 then Inl StateReadOnly else Inr ())"
  by (simp add: disconnectPoller_def stopPolling_def resetState_def assign_state_def Let_def)

lemma stop_timers:
  "timers (snd (disconnectPoller c))
     = (if pollCount c = 1 then filter (\<lambda>t. Some (fst t) \<noteq> intervalId c) (timers c)
        else timers c)"
  by (cases "intervalId c")
     (simp_all add: disconnectPoller_def stopPolling_def resetState_def assign_state_def
        clearInterval_def emit_def Let_def)

lemma start_begin_active:
  "pollCount c > 0 \<Longrightarrow> getGasFeeEstimatesAndStartPolling_begin c
     = (StartReturned (Inr (Some (state c))), c\<lparr>pollCount := pollCount c + 1\<rparr>)"
  by (simp add: getGasFeeEstimatesAndStartPolling_begin_def start_finish_def startPolling_def
      Let_def)

lemma start_begin_idle:
  "\<not> pollCount c > 0 \<Longrightarrow> getGasFeeEstimatesAndStartPolling_begin c
     = (StartSuspended (case fst (fetchGasFeeEstimateData_begin c) of
                          Completed returned \<Rightarrow> AwaitRefresh returned
                        | Suspended \<Rightarrow> AwaitFetch),
        snd (fetchGasFeeEstimateData_begin c))"
  by (simp add: getGasFeeEstimatesAndStartPolling_begin_def Let_def split: progress.splits)

lemma start_resume_refresh:
  "getGasFeeEstimatesAndStartPolling_resume (AwaitRefresh (Inr gasEstimates)) outcome c
     = (StartReturned (Inr gasEstimates), startPolling c)"
  by (simp add: getGasFeeEstimatesAndStartPolling_resume_def start_finish_def)

lemma start_resume_fetch:
  "getGasFeeEstimatesAndStartPolling_resume AwaitFetch outcome c
     = (StartSuspended (AwaitRefresh (fst (fetchGasFeeEstimateData_resume outcome c))),
        snd (fetchGasFeeEstimateData_resume outcome c))"
  by (simp add: getGasFeeEstimatesAndStartPolling_resume_def Let_def)

lemma awaited_start_eq:
  "awaited_start outcome c
     = (if pollCount c > 0
        then (StartReturned (Inr (Some (state c))), c\<lparr>pollCount := pollCount c + 1\<rparr>)
        else (StartReturned (fst (fetchGasFeeEstimateData outcome c)),
              startPolling (snd (fetchGasFeeEstimateData outcome c))))"
proof (cases "pollCount c > 0")
  case True
  then show ?thesis
    by (simp add: awaited_start_def start_begin_active Let_def)
next
  case False
  show ?thesis
  proof (cases "fetchGasEstimates c")
    case Undefined
    with False show ?thesis
      by (simp add: awaited_start_def start_begin_idle begin_undefined fetch_undefined
          start_resume_refresh Let_def)
  next
    case Function
    obtain g where g: "fst (fetchGasFeeEstimateData_resume outcome
                              (c\<lparr>trace := trace c @ [FetchCalled []]\<rparr>)) = Inr g"
      by (simp add: resume_returns)
    with False Function show ?thesis
      by (simp add: awaited_start_def start_begin_idle begin_function fetch_function
          start_resume_fetch start_resume_refresh Let_def)
  qed
qed

lemma awaited_start_pollCount: "pollCount (snd (awaited_start outcome c)) = pollCount c + 1"
  by (simp add: awaited_start_eq startPolling_frame fetch_frame)








text \<open>What a controller built by the constructor keeps under every order of events.\<close>

lemma as_built_boot: "as_built st (boot (new_GasFeeController interval st))"
  by (simp add: as_built_def boot_def new_GasFeeController_def fetch_calls_def
      fetch_settlements_def)

lemma begin_undefined_counts:
  "fetchGasEstimates c = Undefined \<Longrightarrow>
     fetch_calls (trace (snd (fetchGasFeeEstimateData_begin c))) = fetch_calls (trace c)
     \<and> fetch_settlements (trace (snd (fetchGasFeeEstimateData_begin c)))
         = fetch_settlements (trace c)"
  by (simp add: begin_undefined fetch_calls_append fetch_settlements_append)
     (simp add: fetch_calls_def fetch_settlements_def)

lemma as_built_step:
  assumes "as_built st s"
  shows "as_built st (step e s)"
proof -
  from assms have u: "fetchGasEstimates (ctl s) = Undefined" and m: "\<not> mutex (ctl s)"
    and st: "state (ctl s) = st" and fc: "fetch_calls (trace (ctl s)) = 0"
    and fs: "fetch_settlements (trace (ctl s)) = 0" and tp: "ticks_pending s = 0"
    and pend: "list_all refresh_done (starts_pending s)"
    by (simp_all add: as_built_def)
  show ?thesis
  proof (cases e)
    case CallStart
    show ?thesis
    proof (cases "pollCount (ctl s) > 0")
      case True
      with True CallStart u m st fc fs tp pend show ?thesis
        by (simp add: as_built_def start_begin_active)
    next
      case False
      with CallStart u m st fc fs tp pend show ?thesis
        by (simp add: as_built_def start_begin_idle refresh_begin_frame begin_undefined_counts)
           (simp add: begin_undefined)
    qed
  next
    case (ResumeStart k outcome)
    show ?thesis
    proof (cases "k < length (starts_pending s)")
      case False
      with assms ResumeStart show ?thesis by simp
    next
      case True
      with pend have "refresh_done (starts_pending s ! k)"
        by (simp add: list_all_length)
      then obtain g where g: "starts_pending s ! k = AwaitRefresh (Inr g)"
      proof (cases "starts_pending s ! k")
        case AwaitFetch
        with \<open>refresh_done (starts_pending s ! k)\<close> show ?thesis by simp
      next
        case (AwaitRefresh returned)
        with \<open>refresh_done (starts_pending s ! k)\<close> that show ?thesis
          by (cases returned) simp_all
      qed
      have rest: "list_all refresh_done
                    (take k (starts_pending s) @ drop (Suc k) (starts_pending s))"
        using pend by (auto simp: list_all_iff dest: in_set_takeD in_set_dropD)
      from True ResumeStart g rest u m st fc fs tp show ?thesis
        by (simp add: as_built_def start_resume_refresh startPolling_frame)
    qed
  next
    case CallStop
    with u m st fc fs tp pend show ?thesis
      by (simp add: as_built_def stop_frame)
  next
    case (FireTimer h)
    with u m st fc fs tp pend show ?thesis
      by (simp add: as_built_def tick_begin_def refresh_begin_frame begin_undefined_counts Let_def)
         (simp add: begin_undefined)
  next
    case (ResumeTick outcome)
    with assms tp show ?thesis by simp
  qed
qed

lemma as_built_run_events: "as_built st s \<Longrightarrow> as_built st (run_events events s)"
  by (induction events arbitrary: s) (simp_all add: as_built_step)

lemma as_built_run: "as_built st (built_run interval st events)"
  unfolding built_run_def by (rule as_built_run_events [OF as_built_boot])



text \<open>
  With a collaborator put on the instance the refresh does stop at its \<open>await\<close>, and
  nothing keeps a second firing of the timer from calling the fetch again.
\<close>

lemma stubbed_polling_eval:
  "stubbed_polling =
     \<lparr>state = newEstimates_of example_estimates,
      timers = [(1, 15000)], nextTimerId = 2,
      trace = [FetchCalled [], FetchSettled,
        StateChange (newEstimates_of example_estimates,
          [Patch [''legacyGasPriceEstimates''] Replace
             (LegacyValue (legacyGasPriceEstimates (newEstimates_of example_estimates))),
           Patch [''gasFeeEstimates''] Replace (EstimatesValue (Some example_estimates))]),
        SetInterval 1 15000],
      mutex = False, intervalId = Some 1, intervalDelay = 15000, pollCount = 1,
      destroyed = False, fetchGasEstimates = Function\<rparr>"
  by (simp add: stubbed_polling_def stubbed_def fresh_def new_GasFeeController_def boot_def
      gas_defs diff_patches_def defaultState_def Let_def newEstimates_of_def)

lemma stubbed_ticks_overlap:
  "in_flight (trace (ctl (run_events [FireTimer 1, FireTimer 1] (boot stubbed_polling)))) = 2
   \<and> ticks_pending (run_events [FireTimer 1, FireTimer 1] (boot stubbed_polling)) = 2
   \<and> \<not> mutex (ctl (run_events [FireTimer 1, FireTimer 1] (boot stubbed_polling)))"
  by (simp add: stubbed_polling_eval boot_def tick_begin_def armed_def
      fetchGasFeeEstimateData_begin_def emit_def in_flight_def fetch_calls_def
      fetch_settlements_def Let_def)



lemma seeded_polling_eval:
  "seeded_polling =
     \<lparr>state = newEstimates_of example_estimates,
      timers = [(1, 15000)], nextTimerId = 2,
      trace = [ConsoleError (TypeError ''this.fetchGasEstimates is not a function''),
               SetInterval 1 15000],
      mutex = False, intervalId = Some 1, intervalDelay = 15000, pollCount = 1,
      destroyed = False, fetchGasEstimates = Undefined\<rparr>"
  by (simp add: seeded_polling_def seeded_def new_GasFeeController_def boot_def
      gas_defs diff_patches_same Let_def)

lemma newEstimates_not_default: "newEstimates_of estimates \<noteq> defaultState"
  by (simp add: newEstimates_of_def defaultState_def)

text \<open>
  C4. The claim asks that the stop which takes \<open>pollCount\<close> from 1 to 0 disarms the
  timer and resets the state to the default snapshot. Evaluated on the code: the stop
  clears the timer and sets the count to 0, and then \<open>resetState\<close> assigns to the
  read-only \<open>state\<close>, which throws; the stop ends with that error and the snapshot is
  the one from before the stop. A controller built with a snapshot kept from an earlier
  session, started once and stopped, still holds that snapshot, not the default one. No
  stop changes the snapshot of any controller, and after every sequence of events a
  controller built by the constructor holds the snapshot it was built with, so a later
  caller observes it.
\<close>

theorem C4_last_stop_throws_before_reset:
  "fst (disconnectPoller (c\<lparr>pollCount := 1\<rparr>)) = Inl StateReadOnly
   \<and> pollCount (snd (disconnectPoller (c\<lparr>pollCount := 1\<rparr>))) = 0
   \<and> timers (snd (disconnectPoller (c\<lparr>pollCount := 1\<rparr>)))
       = filter (\<lambda>t. Some (fst t) \<noteq> intervalId c) (timers c)
   \<and> state (snd (disconnectPoller c)) = state c
   \<and> state (ctl (built_run interval st events)) = st
   \<and> pollCount seeded_polling = 1
   \<and> timers seeded_polling = [(1, 15000)]
   \<and> state seeded_polling = newEstimates_of example_estimates
   \<and> fst (disconnectPoller seeded_polling) = Inl StateReadOnly
   \<and> pollCount (snd (disconnectPoller seeded_polling)) = 0
   \<and> timers (snd (disconnectPoller seeded_polling)) = []
   \<and> state (snd (disconnectPoller seeded_polling)) = newEstimates_of example_estimates
   \<and> state (snd (disconnectPoller seeded_polling)) \<noteq> defaultState"
proof -
  have b: "as_built st (built_run interval st events)"
    by (rule as_built_run)
  have g: "fst (disconnectPoller (c\<lparr>pollCount := 1\<rparr>)) = Inl StateReadOnly"
    "pollCount (snd (disconnectPoller (c\<lparr>pollCount := 1\<rparr>))) = 0"
    "timers (snd (disconnectPoller (c\<lparr>pollCount := 1\<rparr>)))
       = filter (\<lambda>t. Some (fst t) \<noteq> intervalId c) (timers c)"
    "state (snd (disconnectPoller c)) = state c"
    by (simp_all add: stop_result stop_pollCount stop_timers stop_frame)
  have e: "pollCount seeded_polling = 1" "timers seeded_polling = [(1, 15000)]"
    "state seeded_polling = newEstimates_of example_estimates"
    "intervalId seeded_polling = Some 1"
    by (simp_all add: seeded_polling_eval)
  have x: "fst (disconnectPoller seeded_polling) = Inl StateReadOnly"
    "pollCount (snd (disconnectPoller seeded_polling)) = 0"
    "timers (snd (disconnectPoller seeded_polling)) = []"
    "state (snd (disconnectPoller seeded_polling)) = newEstimates_of example_estimates"
    by (simp_all add: stop_result stop_pollCount stop_timers stop_frame e)
  from b g e x show ?thesis
    by (simp add: as_built_def newEstimates_not_default)
qed

text \<open>
  C5, as claimed, fails. Two starts are called one after the other on a fresh
  controller, before either goes on: both are called with \<open>pollCount = 0\<close> and both
  refresh; the first to resume arms timer 1, the second resumes at \<open>pollCount = 1\<close> and
  arms none. And a start followed by a stop before the start goes on resumes at
  \<open>pollCount = -1\<close>: this start, called with \<open>pollCount = 0\<close>, arms no timer at all.
\<close>

theorem C5_start_called_at_zero_arms_none_counterexample:
  "pollCount (ctl (run_events [CallStart, CallStart] (boot fresh))) = 0
   \<and> length (starts_pending (run_events [CallStart, CallStart] (boot fresh))) = 2
   \<and> timers (ctl (run_events
        [CallStart, CallStart, ResumeStart 0 (Inl (FetchError ''unused''))] (boot fresh)))
       = [(1, 15000)]
   \<and> timers (ctl (run_events
        [CallStart, CallStart, ResumeStart 0 (Inl (FetchError ''unused'')),
         ResumeStart 0 (Inl (FetchError ''unused''))] (boot fresh)))
       = [(1, 15000)]
   \<and> pollCount (ctl (run_events
        [CallStart, CallStart, ResumeStart 0 (Inl (FetchError ''unused'')),
         ResumeStart 0 (Inl (FetchError ''unused''))] (boot fresh))) = 2
   \<and> starts_pending (run_events
        [CallStart, CallStop, ResumeStart 0 (Inl (FetchError ''unused''))] (boot fresh)) = []
   \<and> timers (ctl (run_events
        [CallStart, CallStop, ResumeStart 0 (Inl (FetchError ''unused''))] (boot fresh))) = []
   \<and> pollCount (ctl (run_events
        [CallStart, CallStop, ResumeStart 0 (Inl (FetchError ''unused''))] (boot fresh))) = 0"
  by (simp add: fresh_def new_GasFeeController_def boot_def gas_defs diff_patches_same Let_def)

text \<open>
  C5, amended. The call of a start at \<open>pollCount > 0\<close> returns the current state within
  the call, increments the count by 1, calls no fetch and arms no timer. The call of a
  start at any other count begins one refresh and is suspended; it changes neither the
  count nor the timers. A suspended start whose refresh has returned goes on by
  incrementing the count by 1 and returning what the refresh returned, and it arms one
  repeating timer at \<open>intervalDelay\<close>, whose handle it stores, exactly when the count is
  0 at that moment; one waiting for its fetch first takes the refresh to its end,
  changing neither count nor timers. So every start increments the count by exactly 1,
  at its return. When nothing else runs while it is suspended, a start called at
  \<open>pollCount = 0\<close> performs one refresh and after it arms one timer.
\<close>

theorem C5_start_arms_when_count_is_zero_at_resume:
  "pollCount (snd (getGasFeeEstimatesAndStartPolling_begin c))
     = pollCount c + (if pollCount c > 0 then 1 else 0)
   \<and> timers (snd (getGasFeeEstimatesAndStartPolling_begin c)) = timers c
   \<and> (pollCount c > 0 \<longrightarrow>
        getGasFeeEstimatesAndStartPolling_begin c
          = (StartReturned (Inr (Some (state c))), c\<lparr>pollCount := pollCount c + 1\<rparr>))
   \<and> (\<not> pollCount c > 0 \<longrightarrow>
        (\<exists>pending. fst (getGasFeeEstimatesAndStartPolling_begin c) = StartSuspended pending)
        \<and> snd (getGasFeeEstimatesAndStartPolling_begin c) = snd (fetchGasFeeEstimateData_begin c))
   \<and> fst (getGasFeeEstimatesAndStartPolling_resume (AwaitRefresh (Inr g)) outcome c)
       = StartReturned (Inr g)
   \<and> pollCount (snd (getGasFeeEstimatesAndStartPolling_resume (AwaitRefresh (Inr g)) outcome c))
       = pollCount c + 1
   \<and> timers (snd (getGasFeeEstimatesAndStartPolling_resume (AwaitRefresh (Inr g)) outcome c))
       = timers c @ (if pollCount c = 0 then [(nextTimerId c, intervalDelay c)] else [])
   \<and> intervalId (snd (getGasFeeEstimatesAndStartPolling_resume (AwaitRefresh (Inr g)) outcome c))
       = (if pollCount c = 0 then Some (nextTimerId c) else intervalId c)
   \<and> fst (getGasFeeEstimatesAndStartPolling_resume AwaitFetch outcome c)
       = StartSuspended (AwaitRefresh (Inr (case outcome of Inl e \<Rightarrow> None
            | Inr estimates \<Rightarrow> Some (newEstimates_of estimates))))
   \<and> pollCount (snd (getGasFeeEstimatesAndStartPolling_resume AwaitFetch outcome c)) = pollCount c
   \<and> timers (snd (getGasFeeEstimatesAndStartPolling_resume AwaitFetch outcome c)) = timers c
   \<and> pollCount (snd (awaited_start outcome c)) = pollCount c + 1
   \<and> (pollCount c = 0 \<longrightarrow>
        awaited_start outcome c
          = (StartReturned (fst (fetchGasFeeEstimateData outcome c)),
             (poll (snd (fetchGasFeeEstimateData outcome c)))\<lparr>pollCount := 1\<rparr>)
        \<and> trace (snd (awaited_start outcome c))
            = trace (snd (fetchGasFeeEstimateData outcome c))
                @ [SetInterval (nextTimerId c) (intervalDelay c)]
        \<and> timers (snd (awaited_start outcome c)) = timers c @ [(nextTimerId c, intervalDelay c)]
        \<and> intervalId (snd (awaited_start outcome c)) = Some (nextTimerId c))"
proof (intro conjI impI)
  show "pollCount (snd (getGasFeeEstimatesAndStartPolling_begin c))
     = pollCount c + (if pollCount c > 0 then 1 else 0)"
    by (cases "pollCount c > 0") (simp_all add: start_begin_active start_begin_idle refresh_begin_frame)
  show "timers (snd (getGasFeeEstimatesAndStartPolling_begin c)) = timers c"
    by (cases "pollCount c > 0") (simp_all add: start_begin_active start_begin_idle refresh_begin_frame)
  show "getGasFeeEstimatesAndStartPolling_begin c
          = (StartReturned (Inr (Some (state c))), c\<lparr>pollCount := pollCount c + 1\<rparr>)"
    if "pollCount c > 0"
    using that by (rule start_begin_active)
  show "\<exists>pending. fst (getGasFeeEstimatesAndStartPolling_begin c) = StartSuspended pending"
    if "\<not> pollCount c > 0"
    using that by (simp add: start_begin_idle)
  show "snd (getGasFeeEstimatesAndStartPolling_begin c) = snd (fetchGasFeeEstimateData_begin c)"
    if "\<not> pollCount c > 0"
    using that by (simp add: start_begin_idle)
  show "fst (getGasFeeEstimatesAndStartPolling_resume (AwaitRefresh (Inr g)) outcome c)
       = StartReturned (Inr g)"
    by (simp add: start_resume_refresh)
  show "pollCount (snd (getGasFeeEstimatesAndStartPolling_resume (AwaitRefresh (Inr g)) outcome c))
       = pollCount c + 1"
    by (simp add: start_resume_refresh startPolling_frame)
  show "timers (snd (getGasFeeEstimatesAndStartPolling_resume (AwaitRefresh (Inr g)) outcome c))
       = timers c @ (if pollCount c = 0 then [(nextTimerId c, intervalDelay c)] else [])"
    by (simp add: start_resume_refresh startPolling_timers)
  show "intervalId (snd (getGasFeeEstimatesAndStartPolling_resume (AwaitRefresh (Inr g)) outcome c))
       = (if pollCount c = 0 then Some (nextTimerId c) else intervalId c)"
    by (simp add: start_resume_refresh startPolling_timers)
  show "fst (getGasFeeEstimatesAndStartPolling_resume AwaitFetch outcome c)
       = StartSuspended (AwaitRefresh (Inr (case outcome of Inl e \<Rightarrow> None
            | Inr estimates \<Rightarrow> Some (newEstimates_of estimates))))"
    by (simp add: start_resume_fetch resume_returns)
  show "pollCount (snd (getGasFeeEstimatesAndStartPolling_resume AwaitFetch outcome c)) = pollCount c"
    by (simp add: start_resume_fetch refresh_resume_frame)
  show "timers (snd (getGasFeeEstimatesAndStartPolling_resume AwaitFetch outcome c)) = timers c"
    by (simp add: start_resume_fetch refresh_resume_frame)
  show "pollCount (snd (awaited_start outcome c)) = pollCount c + 1"
    by (rule awaited_start_pollCount)
next
  assume idle: "pollCount c = 0"
  have p: "pollCount (snd (fetchGasFeeEstimateData outcome c)) = 0"
    by (simp add: fetch_frame idle)
  show a: "awaited_start outcome c
          = (StartReturned (fst (fetchGasFeeEstimateData outcome c)),
             (poll (snd (fetchGasFeeEstimateData outcome c)))\<lparr>pollCount := 1\<rparr>)"
    by (simp add: awaited_start_eq idle startPolling_def p Let_def)
       (simp add: poll_def setInterval_def emit_def Let_def p)
  have s: "snd (awaited_start outcome c) = startPolling (snd (fetchGasFeeEstimateData outcome c))"
    by (simp add: awaited_start_eq idle)
  show "trace (snd (awaited_start outcome c))
            = trace (snd (fetchGasFeeEstimateData outcome c))
                @ [SetInterval (nextTimerId c) (intervalDelay c)]"
    by (simp add: s startPolling_timers fetch_frame idle)
  show "timers (snd (awaited_start outcome c)) = timers c @ [(nextTimerId c, intervalDelay c)]"
    by (simp add: s startPolling_timers fetch_frame idle)
  show "intervalId (snd (awaited_start outcome c)) = Some (nextTimerId c)"
    by (simp add: s startPolling_timers fetch_frame idle)
qed

theorem C5_start_witness:
  "pollCount fresh = 0
   \<and> timers (snd (awaited_start (Inr example_estimates) fresh)) = [(1, 15000)]
   \<and> intervalId (snd (awaited_start (Inr example_estimates) fresh)) = Some 1
   \<and> pollCount seeded_polling > 0
   \<and> getGasFeeEstimatesAndStartPolling_begin seeded_polling
        = (StartReturned (Inr (Some (state seeded_polling))), seeded_polling\<lparr>pollCount := 2\<rparr>)
   \<and> snd (getGasFeeEstimatesAndStartPolling_begin fresh) = snd (fetchGasFeeEstimateData_begin fresh)"
proof -
  have h0: "pollCount fresh = 0" and n0: "\<not> pollCount fresh > 0"
    by (simp_all add: fresh_def new_GasFeeController_def)
  have h1: "pollCount seeded_polling > 0" and p1: "pollCount seeded_polling = 1"
    by (simp_all add: seeded_polling_eval)
  have v0: "timers fresh = []" "nextTimerId fresh = 1" "intervalDelay fresh = 15000"
    by (simp_all add: fresh_def new_GasFeeController_def)
  note c5 = C5_start_arms_when_count_is_zero_at_resume
  from c5 [of fresh _ "Inr example_estimates"] h0
  have t: "timers (snd (awaited_start (Inr example_estimates) fresh))
             = timers fresh @ [(nextTimerId fresh, intervalDelay fresh)]"
    and i: "intervalId (snd (awaited_start (Inr example_estimates) fresh))
             = Some (nextTimerId fresh)"
    by blast+
  from c5 [of fresh _ "Inr example_estimates"] n0
  have r: "snd (getGasFeeEstimatesAndStartPolling_begin fresh)
             = snd (fetchGasFeeEstimateData_begin fresh)"
    by blast
  from c5 [of seeded_polling _ "Inr example_estimates"] h1
  have "getGasFeeEstimatesAndStartPolling_begin seeded_polling
        = (StartReturned (Inr (Some (state seeded_polling))),
           seeded_polling\<lparr>pollCount := pollCount seeded_polling + 1\<rparr>)"
    by blast
  then have b: "getGasFeeEstimatesAndStartPolling_begin seeded_polling
        = (StartReturned (Inr (Some (state seeded_polling))), seeded_polling\<lparr>pollCount := 2\<rparr>)"
    by (simp add: p1)
  from h0 t i h1 b r show ?thesis
    by (simp add: v0)
qed

section \<open>TokenRatesController: the interval setter and the guard of the refresh\<close>

lemma begin_frame:
  "timers (snd (updateExchangeRates_begin c)) = timers c
   \<and> nextTimerId (snd (updateExchangeRates_begin c)) = nextTimerId c
   \<and> handle (snd (updateExchangeRates_begin c)) = handle c
   \<and> state (snd (updateExchangeRates_begin c)) = state c
   \<and> disabled (snd (updateExchangeRates_begin c)) = disabled c
   \<and> nativeCurrency (snd (updateExchangeRates_begin c)) = nativeCurrency c
   \<and> tokenList (snd (updateExchangeRates_begin c)) = tokenList c"
  by (simp add: updateExchangeRates_begin_def emit_def Let_def)

lemma set_interval_timers:
  "timers (set_interval interval c)
     = filter (\<lambda>t. Some (fst t) \<noteq> handle c) (timers c) @ [(nextTimerId c, interval)]"
  by (cases "handle c")
     (simp_all add: set_interval_def setInterval_def clearInterval_def emit_def Let_def begin_frame)

lemma set_interval_handle: "handle (set_interval interval c) = Some (nextTimerId c)"
  by (cases "handle c")
     (simp_all add: set_interval_def setInterval_def clearInterval_def emit_def Let_def begin_frame)

lemma set_interval_nextTimerId: "nextTimerId (set_interval interval c) = Suc (nextTimerId c)"
  by (cases "handle c")
     (simp_all add: set_interval_def setInterval_def clearInterval_def emit_def Let_def begin_frame)

lemma set_interval_frame:
  "state (set_interval interval c) = state c
   \<and> disabled (set_interval interval c) = disabled c
   \<and> nativeCurrency (set_interval interval c) = nativeCurrency c
   \<and> tokenList (set_interval interval c) = tokenList c"
  by (cases "handle c")
     (simp_all add: set_interval_def setInterval_def clearInterval_def emit_def Let_def begin_frame)

lemma set_interval_trace:
  "trace (set_interval interval c)
     = trace c
       @ (case handle c of Some h \<Rightarrow> [ClearInterval h] | None \<Rightarrow> [])
       @ (if disabled c \<or> tokenList c = [] then []
          else [FetchCalled (getPricingURL (join ''&''
                  (map (\<lambda>token. ''pairs[]='' @ address token @ ''/'' @ nativeCurrency c)
                     (tokenList c))))])
       @ [SetInterval (nextTimerId c) interval]"
  by (cases "handle c")
     (simp_all add: set_interval_def setInterval_def clearInterval_def emit_def Let_def
        updateExchangeRates_begin_def)

lemma set_interval_single:
  "rates_timer_inv c \<Longrightarrow> timers (set_interval interval c) = [(nextTimerId c, interval)]"
  by (simp add: set_interval_timers rates_timer_inv_def)

lemma set_interval_inv: "rates_timer_inv c \<Longrightarrow> rates_timer_inv (set_interval interval c)"
  by (simp add: rates_timer_inv_def set_interval_timers set_interval_handle)

lemma set_interval_repeated:
  "rates_timer_inv c \<Longrightarrow>
     timers (fold set_interval intervals (set_interval interval c))
       = [(nextTimerId c + length intervals, last (interval # intervals))]"
proof (induction intervals arbitrary: c interval)
  case Nil
  then show ?case by (simp add: set_interval_single)
next
  case (Cons i rest)
  have "rates_timer_inv (set_interval interval c)"
    by (rule set_interval_inv [OF Cons.prems])
  from Cons.IH [OF this, of i] show ?case
    by (simp add: set_interval_nextTimerId)
qed

lemma blank_inv: "rates_timer_inv blank_TokenRatesController"
  by (simp add: rates_timer_inv_def blank_TokenRatesController_def)

text \<open>
  C8. Assigning the interval removes the timer \<open>handle\<close> referred to from the armed
  timers (\<open>clearInterval\<close> is called on it), starts a refresh, arms one new repeating
  timer at the new interval and stores its handle. The
  state, \<open>disabled\<close>, the native currency and the token list are as before; the class
  keeps no reference count, so there is none to touch. After any number of assignments
  on a controller that started without a timer exactly one timer is armed, at the
  interval assigned last.
\<close>

theorem C8_interval_rearms_one_timer:
  "timers (set_interval interval c)
     = filter (\<lambda>t. Some (fst t) \<noteq> handle c) (timers c) @ [(nextTimerId c, interval)]
   \<and> handle (set_interval interval c) = Some (nextTimerId c)
   \<and> trace (set_interval interval c)
       = trace c
         @ (case handle c of Some h \<Rightarrow> [ClearInterval h] | None \<Rightarrow> [])
         @ (if disabled c \<or> tokenList c = [] then []
            else [FetchCalled (getPricingURL (join ''&''
                    (map (\<lambda>token. ''pairs[]='' @ address token @ ''/'' @ nativeCurrency c)
                       (tokenList c))))])
         @ [SetInterval (nextTimerId c) interval]
   \<and> state (set_interval interval c) = state c
   \<and> disabled (set_interval interval c) = disabled c
   \<and> nativeCurrency (set_interval interval c) = nativeCurrency c
   \<and> tokenList (set_interval interval c) = tokenList c
   \<and> timers (fold set_interval intervals (set_interval interval blank_TokenRatesController))
       = [(Suc (length intervals), last (interval # intervals))]"
proof (intro conjI)
  show "timers (set_interval interval c)
     = filter (\<lambda>t. Some (fst t) \<noteq> handle c) (timers c) @ [(nextTimerId c, interval)]"
    by (rule set_interval_timers)
  show "handle (set_interval interval c) = Some (nextTimerId c)"
    by (rule set_interval_handle)
  show "trace (set_interval interval c)
       = trace c
         @ (case handle c of Some h \<Rightarrow> [ClearInterval h] | None \<Rightarrow> [])
         @ (if disabled c \<or> tokenList c = [] then []
            else [FetchCalled (getPricingURL (join ''&''
                    (map (\<lambda>token. ''pairs[]='' @ address token @ ''/'' @ nativeCurrency c)
                       (tokenList c))))])
         @ [SetInterval (nextTimerId c) interval]"
    by (rule set_interval_trace)
  show "state (set_interval interval c) = state c" "disabled (set_interval interval c) = disabled c"
    "nativeCurrency (set_interval interval c) = nativeCurrency c"
    "tokenList (set_interval interval c) = tokenList c"
    by (simp_all add: set_interval_frame)
  show "timers (fold set_interval intervals (set_interval interval blank_TokenRatesController))
       = [(Suc (length intervals), last (interval # intervals))]"
    using set_interval_repeated [OF blank_inv, of intervals interval]
    by (simp add: blank_TokenRatesController_def)
qed

text \<open>
  C9. When the controller is disabled or its token list is empty, \<open>updateExchangeRates\<close>
  returns without calling the fetch and the controller, with its whole state and its
  trace, is unchanged; so is it after a timer tick.
\<close>

theorem C9_guarded_refresh_is_noop:
  "disabled c \<or> tokenList c = [] \<longrightarrow>
     updateExchangeRates toChecksumAddress outcome c = (Inr (), c)
     \<and> updateExchangeRates_begin c = (False, c)
     \<and> rates_tick h toChecksumAddress outcome c = c"
  by (auto simp: updateExchangeRates_def updateExchangeRates_begin_def rates_tick_def
      safelyExecute_def)

theorem C9_guarded_refresh_witness:
  "(disabled disabled_tracker \<or> tokenList disabled_tracker = [])
   \<and> updateExchangeRates id (Inr (Some [(''0xabc/eth'', JNumber 2)])) disabled_tracker
       = (Inr (), disabled_tracker)
   \<and> (disabled blank_TokenRatesController \<or> tokenList blank_TokenRatesController = [])
   \<and> updateExchangeRates id (Inr (Some [(''0xabc/eth'', JNumber 2)])) blank_TokenRatesController
       = (Inr (), blank_TokenRatesController)"
proof -
  have h1: "disabled disabled_tracker \<or> tokenList disabled_tracker = []"
    by (simp add: disabled_tracker_def)
  have h2: "disabled blank_TokenRatesController \<or> tokenList blank_TokenRatesController = []"
    by (simp add: blank_TokenRatesController_def)
  from C9_guarded_refresh_is_noop [of disabled_tracker id "Inr (Some [(''0xabc/eth'', JNumber 2)])"] h1
       C9_guarded_refresh_is_noop [of blank_TokenRatesController id "Inr (Some [(''0xabc/eth'', JNumber 2)])"] h2
  show ?thesis by blast
qed

text \<open>The refresh of an enabled controller that tracks a token, evaluated.\<close>

lemma updateExchangeRates_example:
  "fst (updateExchangeRates id (Inr (Some [(''0xABC/eth'', JNumber 2), (''0xdef/eth'', JOther)]))
          (blank_TokenRatesController\<lparr>tokenList := [example_token]\<rparr>)) = Inr ()
   \<and> contractExchangeRates (state (snd (updateExchangeRates id
          (Inr (Some [(''0xABC/eth'', JNumber 2), (''0xdef/eth'', JOther)]))
          (blank_TokenRatesController\<lparr>tokenList := [example_token]\<rparr>)))) ''0xabc'' = Some 2
   \<and> contractExchangeRates (state (snd (updateExchangeRates id
          (Inr (Some [(''0xABC/eth'', JNumber 2), (''0xdef/eth'', JOther)]))
          (blank_TokenRatesController\<lparr>tokenList := [example_token]\<rparr>)))) ''0xdef'' = Some 0
   \<and> fetch_calls (trace (snd (updateExchangeRates id
          (Inr (Some [(''0xABC/eth'', JNumber 2), (''0xdef/eth'', JOther)]))
          (blank_TokenRatesController\<lparr>tokenList := [example_token]\<rparr>)))) = 1
   \<and> hd (trace (snd (updateExchangeRates id
          (Inr (Some [(''0xABC/eth'', JNumber 2), (''0xdef/eth'', JOther)]))
          (blank_TokenRatesController\<lparr>tokenList := [example_token]\<rparr>))))
        = FetchCalled ''https://exchanges.balanc3.net/pie?pairs[]=0xAbC/eth&autoConversion=true''"
  by (simp add: updateExchangeRates_def updateExchangeRates_begin_def
      updateExchangeRates_resume_def blank_TokenRatesController_def example_token_def
      legacy_update_def emit_def store_price_def toLowerCase_def lower_char_def before_slash_def
      getPricingURL_def fetch_calls_def Let_def)

section \<open>The token list of AssetsController and PreferencesController\<close>

lemma find_None_iff_address:
  "(List.find (\<lambda>token. address token = a) ts = None) = (a \<notin> set (map address ts))"
  by (induction ts) auto

lemma indexOf_found:
  "List.find (\<lambda>token. address token = a) ts = Some p \<Longrightarrow>
     0 \<le> indexOf ts p \<and> indexOf ts p < int (length ts)
     \<and> address (ts ! nat (indexOf ts p)) = a
     \<and> (\<forall>j < nat (indexOf ts p). address (ts ! j) \<noteq> a)"
proof (induction ts)
  case Nil
  then show ?case by simp
next
  case (Cons t ts)
  show ?case
  proof (cases "address t = a")
    case True
    with Cons.prems show ?thesis by simp
  next
    case False
    with Cons.prems have f: "List.find (\<lambda>token. address token = a) ts = Some p"
      by simp
    then have "address p = a"
      by (auto simp: find_Some_iff)
    with False have ne: "t \<noteq> p" by auto
    from Cons.IH [OF f] ne False show ?thesis
      by (auto simp: Let_def nat_add_distrib less_Suc_eq_0_disj)
  qed
qed

lemma addToken_existing:
  assumes "List.find (\<lambda>token. address token = ck a) (tokens (state c)) = Some p"
  shows "fst (addToken ck a s d c)
           = (tokens (state c))[nat (indexOf (tokens (state c)) p)
                := \<lparr>address = ck a, decimals = d, symbol = s\<rparr>]"
  using assms indexOf_found [OF assms]
  by (simp add: addToken_def assign_index_def Let_def)

lemma addToken_new:
  assumes "ck a \<notin> set (map address (tokens (state c)))"
  shows "fst (addToken ck a s d c)
           = tokens (state c) @ [\<lparr>address = ck a, decimals = d, symbol = s\<rparr>]"
proof -
  have "List.find (\<lambda>token. address token = ck a) (tokens (state c)) = None"
    using find_None_iff_address [of "ck a" "tokens (state c)"] assms by blast
  then show ?thesis by (simp add: addToken_def Let_def)
qed

lemma addToken_stored: "tokens (state (snd (addToken ck a s d c))) = fst (addToken ck a s d c)"
  by (simp add: addToken_def legacy_update_def emit_def Let_def)

lemma map_address_update:
  "i < length ts \<Longrightarrow> address (ts ! i) = address v \<Longrightarrow> map address (ts[i := v]) = map address ts"
  by (simp add: map_update list_update_same_conv)

lemma addToken_addresses:
  "map address (fst (addToken ck a s d c))
     = (if ck a \<in> set (map address (tokens (state c))) then map address (tokens (state c))
        else map address (tokens (state c)) @ [ck a])"
proof (cases "List.find (\<lambda>token. address token = ck a) (tokens (state c))")
  case None
  then have "ck a \<notin> set (map address (tokens (state c)))"
    by (simp add: find_None_iff_address)
  then show ?thesis by (simp add: addToken_new)
next
  case (Some p)
  then have "ck a \<in> set (map address (tokens (state c)))"
    using find_None_iff_address [of "ck a" "tokens (state c)"] by simp
  moreover from indexOf_found [OF Some]
  have "map address ((tokens (state c))[nat (indexOf (tokens (state c)) p)
                := \<lparr>address = ck a, decimals = d, symbol = s\<rparr>]) = map address (tokens (state c))"
    by (intro map_address_update) auto
  ultimately show ?thesis
    using addToken_existing [of ck a c p s d] Some by simp
qed

lemma addToken_distinct:
  "distinct (map address (tokens (state c))) \<Longrightarrow> distinct (map address (fst (addToken ck a s d c)))"
  by (simp add: addToken_addresses)

lemma addTokens_distinct:
  "distinct (map address (tokens (state c))) \<Longrightarrow>
     distinct (map address (tokens (state (addTokens ck requests c))))"
proof (induction requests arbitrary: c)
  case Nil
  then show ?case by (simp add: addTokens_def)
next
  case (Cons r rs)
  have "distinct (map address (tokens (state (snd (addToken ck (fst r) (fst (snd r)) (snd (snd r)) c)))))"
    by (simp add: addToken_stored addToken_distinct [OF Cons.prems])
  from Cons.IH [OF this] show ?case
    by (simp add: addTokens_def)
qed

text \<open>
  C10. The list \<open>addToken\<close> returns is the list it stores. If the stored addresses are
  pairwise distinct before the call they are so after it. If the checksummed address is
  already stored, the entry at its first (then only) position is replaced by the new
  entry, and the length of the list and the order of its addresses are unchanged;
  otherwise the new entry is appended. Starting from the empty default list of either
  controller, any sequence of \<open>addToken\<close> calls leaves the addresses distinct.
\<close>

theorem C10_addToken_keeps_addresses_distinct:
  "tokens (state (snd (addToken ck a s d c))) = fst (addToken ck a s d c)
   \<and> (distinct (map address (tokens (state c)))
        \<longrightarrow> distinct (map address (fst (addToken ck a s d c))))
   \<and> (ck a \<in> set (map address (tokens (state c))) \<longrightarrow>
        (\<exists>i < length (tokens (state c)).
            address (tokens (state c) ! i) = ck a
            \<and> (\<forall>j < i. address (tokens (state c) ! j) \<noteq> ck a)
            \<and> fst (addToken ck a s d c)
                = (tokens (state c))[i := \<lparr>address = ck a, decimals = d, symbol = s\<rparr>])
        \<and> length (fst (addToken ck a s d c)) = length (tokens (state c))
        \<and> map address (fst (addToken ck a s d c)) = map address (tokens (state c)))
   \<and> (ck a \<notin> set (map address (tokens (state c))) \<longrightarrow>
        fst (addToken ck a s d c)
          = tokens (state c) @ [\<lparr>address = ck a, decimals = d, symbol = s\<rparr>])
   \<and> distinct (map address (tokens (state (addTokens ck requests new_AssetsController))))
   \<and> distinct (map address (tokens (state (addTokens ck requests new_PreferencesController))))"
proof (intro conjI impI)
  show "tokens (state (snd (addToken ck a s d c))) = fst (addToken ck a s d c)"
    by (rule addToken_stored)
  show "distinct (map address (fst (addToken ck a s d c)))"
    if "distinct (map address (tokens (state c)))"
    using that by (rule addToken_distinct)
  show "fst (addToken ck a s d c)
          = tokens (state c) @ [\<lparr>address = ck a, decimals = d, symbol = s\<rparr>]"
    if "ck a \<notin> set (map address (tokens (state c)))"
    using that by (rule addToken_new)
  show "distinct (map address (tokens (state (addTokens ck requests new_AssetsController))))"
    by (rule addTokens_distinct) (simp add: new_AssetsController_def)
  show "distinct (map address (tokens (state (addTokens ck requests new_PreferencesController))))"
    by (rule addTokens_distinct) (simp add: new_PreferencesController_def)
next
  assume present: "ck a \<in> set (map address (tokens (state c)))"
  then obtain p where f: "List.find (\<lambda>token. address token = ck a) (tokens (state c)) = Some p"
    using find_None_iff_address [of "ck a" "tokens (state c)"] by auto
  from indexOf_found [OF f] addToken_existing [of ck a c p s d] f
  show "\<exists>i < length (tokens (state c)).
            address (tokens (state c) ! i) = ck a
            \<and> (\<forall>j < i. address (tokens (state c) ! j) \<noteq> ck a)
            \<and> fst (addToken ck a s d c)
                = (tokens (state c))[i := \<lparr>address = ck a, decimals = d, symbol = s\<rparr>]"
    by (intro exI [of _ "nat (indexOf (tokens (state c)) p)"]) auto
  from present show "map address (fst (addToken ck a s d c)) = map address (tokens (state c))"
    by (simp add: addToken_addresses)
  then show "length (fst (addToken ck a s d c)) = length (tokens (state c))"
    by (metis length_map)
qed

theorem C10_addToken_witness:
  "distinct (map address (tokens (state token_holder)))
   \<and> toLowerCase ''0xABC'' \<in> set (map address (tokens (state token_holder)))
   \<and> fst (addToken toLowerCase ''0xABC'' ''NEW'' 6 token_holder)
       = [\<lparr>address = ''0xabc'', decimals = 6, symbol = ''NEW''\<rparr>,
          \<lparr>address = ''0x123'', decimals = 8, symbol = ''TWO''\<rparr>]
   \<and> distinct (map address (fst (addToken toLowerCase ''0xABC'' ''NEW'' 6 token_holder)))
   \<and> toLowerCase ''0xDEF'' \<notin> set (map address (tokens (state token_holder)))
   \<and> fst (addToken toLowerCase ''0xDEF'' ''NEW'' 6 token_holder)
       = [\<lparr>address = ''0xabc'', decimals = 18, symbol = ''ONE''\<rparr>,
          \<lparr>address = ''0x123'', decimals = 8, symbol = ''TWO''\<rparr>,
          \<lparr>address = ''0xdef'', decimals = 6, symbol = ''NEW''\<rparr>]"
proof -
  have d: "distinct (map address (tokens (state token_holder)))"
    by (simp add: token_holder_def new_AssetsController_def)
  have p: "toLowerCase ''0xABC'' \<in> set (map address (tokens (state token_holder)))"
    by (simp add: token_holder_def new_AssetsController_def toLowerCase_def lower_char_def)
  have n: "toLowerCase ''0xDEF'' \<notin> set (map address (tokens (state token_holder)))"
    by (simp add: token_holder_def new_AssetsController_def toLowerCase_def lower_char_def)
  from C10_addToken_keeps_addresses_distinct [of toLowerCase "''0xABC''" "''NEW''" 6 token_holder] d
  have d': "distinct (map address (fst (addToken toLowerCase ''0xABC'' ''NEW'' 6 token_holder)))"
    by blast
  from C10_addToken_keeps_addresses_distinct [of toLowerCase "''0xDEF''" "''NEW''" 6 token_holder] n
  have a: "fst (addToken toLowerCase ''0xDEF'' ''NEW'' 6 token_holder)
       = tokens (state token_holder)
           @ [\<lparr>address = toLowerCase ''0xDEF'', decimals = 6, symbol = ''NEW''\<rparr>]"
    by blast
  have a': "fst (addToken toLowerCase ''0xDEF'' ''NEW'' 6 token_holder)
       = [\<lparr>address = ''0xabc'', decimals = 18, symbol = ''ONE''\<rparr>,
          \<lparr>address = ''0x123'', decimals = 8, symbol = ''TWO''\<rparr>,
          \<lparr>address = ''0xdef'', decimals = 6, symbol = ''NEW''\<rparr>]"
    by (simp add: a) (simp add: token_holder_def new_AssetsController_def toLowerCase_def
        lower_char_def)
  have r: "fst (addToken toLowerCase ''0xABC'' ''NEW'' 6 token_holder)
       = [\<lparr>address = ''0xabc'', decimals = 6, symbol = ''NEW''\<rparr>,
          \<lparr>address = ''0x123'', decimals = 8, symbol = ''TWO''\<rparr>]"
    by (simp add: addToken_def assign_index_def token_holder_def new_AssetsController_def
        toLowerCase_def lower_char_def Let_def)
  from d p r d' n a' show ?thesis by blast
qed

section \<open>ComposableController: assigning the list of children\<close>

lemma wire_heap:
  "heap (fst (wire a (w, init))) b
     = (if b = a
        then (heap w a)\<lparr>context_ref := context_ref w,
               listeners := listeners (heap w a) @ [Forward (constructor_name (heap w a))]\<rparr>
        else heap w b)"
  by (simp add: wire_def subscribe_def Let_def)

lemma wire_child:
  "constructor_name (heap (fst (wire a (w, init))) b) = constructor_name (heap w b)
   \<and> state (heap (fst (wire a (w, init))) b) = state (heap w b)
   \<and> onComposed (heap (fst (wire a (w, init))) b) = onComposed (heap w b)
   \<and> listeners (heap (fst (wire a (w, init))) b)
       = listeners (heap w b) @ (if b = a then [Forward (constructor_name (heap w b))] else [])"
  by (simp add: wire_heap)

lemma wire_composite:
  "context_ref (fst (wire a (w, init))) = context_ref w
   \<and> state (fst (wire a (w, init))) = state w
   \<and> deliveries (fst (wire a (w, init))) = deliveries w
   \<and> internalControllers (fst (wire a (w, init))) = internalControllers w
   \<and> nextContext (fst (wire a (w, init))) = nextContext w
   \<and> contexts (fst (wire a (w, init))) (context_ref w)
       = (contexts w (context_ref w))(constructor_name (heap w a) \<mapsto> a)
   \<and> snd (wire a (w, init)) = init(constructor_name (heap w a) \<mapsto> state (heap w a))"
  by (simp add: wire_def subscribe_def Let_def)

lemma fold_wire_child:
  "constructor_name (heap (fst (fold wire cs (w, init))) b) = constructor_name (heap w b)
   \<and> state (heap (fst (fold wire cs (w, init))) b) = state (heap w b)
   \<and> onComposed (heap (fst (fold wire cs (w, init))) b) = onComposed (heap w b)
   \<and> listeners (heap (fst (fold wire cs (w, init))) b)
       = listeners (heap w b)
           @ replicate (count_list cs b) (Forward (constructor_name (heap w b)))"
proof (induction cs arbitrary: w init)
  case Nil
  then show ?case by simp
next
  case (Cons a cs)
  obtain w1 init1 where step: "wire a (w, init) = (w1, init1)"
    by (cases "wire a (w, init)")
  then have w1: "w1 = fst (wire a (w, init))" by simp
  have child: "constructor_name (heap w1 b) = constructor_name (heap w b)"
    "state (heap w1 b) = state (heap w b)"
    "onComposed (heap w1 b) = onComposed (heap w b)"
    "listeners (heap w1 b)
       = listeners (heap w b) @ (if b = a then [Forward (constructor_name (heap w b))] else [])"
    by (simp_all add: w1 wire_child)
  have fold_step: "fold wire (a # cs) (w, init) = fold wire cs (w1, init1)"
    by (simp add: step)
  show ?case
    unfolding fold_step using Cons.IH [of w1 init1]
    by (simp add: child replicate_append_same)
qed

lemma fold_wire_composite:
  "context_ref (fst (fold wire cs (w, init))) = context_ref w
   \<and> state (fst (fold wire cs (w, init))) = state w
   \<and> deliveries (fst (fold wire cs (w, init))) = deliveries w
   \<and> internalControllers (fst (fold wire cs (w, init))) = internalControllers w
   \<and> nextContext (fst (fold wire cs (w, init))) = nextContext w"
proof (induction cs arbitrary: w init)
  case Nil
  then show ?case by simp
next
  case (Cons a cs)
  obtain w1 init1 where step: "wire a (w, init) = (w1, init1)"
    by (cases "wire a (w, init)")
  then have w1: "w1 = fst (wire a (w, init))"
    by simp
  have comp: "context_ref w1 = context_ref w" "state w1 = state w"
    "deliveries w1 = deliveries w" "internalControllers w1 = internalControllers w"
    "nextContext w1 = nextContext w"
    by (simp_all add: w1 wire_composite)
  have fold_step: "fold wire (a # cs) (w, init) = fold wire cs (w1, init1)"
    by (simp add: step)
  show ?case
    unfolding fold_step using Cons.IH [of w1 init1]
    by (simp add: comp)
qed

lemma fold_wire_initialState:
  "snd (fold wire cs (w, init))
     = fold (\<lambda>a m. m(constructor_name (heap w a) \<mapsto> state (heap w a))) cs init"
proof (induction cs arbitrary: w init)
  case Nil
  then show ?case by simp
next
  case (Cons a cs)
  obtain w1 init1 where step: "wire a (w, init) = (w1, init1)"
    by (cases "wire a (w, init)")
  then have w1: "w1 = fst (wire a (w, init))" and i1: "init1 = snd (wire a (w, init))"
    by simp_all
  have child: "\<And>b. constructor_name (heap w1 b) = constructor_name (heap w b)"
    "\<And>b. state (heap w1 b) = state (heap w b)"
    by (simp_all add: w1 wire_child)
  have init1: "init1 = init(constructor_name (heap w a) \<mapsto> state (heap w a))"
    by (simp add: i1 wire_composite)
  have "snd (fold wire (a # cs) (w, init)) = snd (fold wire cs (w1, init1))"
    by (simp add: step)
  also have "\<dots> = fold (\<lambda>a m. m(constructor_name (heap w1 a) \<mapsto> state (heap w1 a))) cs init1"
    by (rule Cons.IH)
  also have "\<dots> = fold (\<lambda>a m. m(constructor_name (heap w a) \<mapsto> state (heap w a))) cs init1"
    by (simp only: child)
  also have "\<dots> = fold (\<lambda>a m. m(constructor_name (heap w a) \<mapsto> state (heap w a))) (a # cs) init"
    by (simp only: init1 fold_simps)
  finally show ?case .
qed

lemma fold_wire_context:
  "contexts (fst (fold wire cs (w, init))) (context_ref w)
     = fold (\<lambda>a m. m(constructor_name (heap w a) \<mapsto> a)) cs (contexts w (context_ref w))"
proof (induction cs arbitrary: w init)
  case Nil
  then show ?case by simp
next
  case (Cons a cs)
  obtain w1 init1 where step: "wire a (w, init) = (w1, init1)"
    by (cases "wire a (w, init)")
  then have w1: "w1 = fst (wire a (w, init))"
    by simp
  have child: "\<And>b. constructor_name (heap w1 b) = constructor_name (heap w b)"
    by (simp add: w1 wire_child)
  have c: "context_ref w1 = context_ref w"
    by (simp add: w1 wire_composite)
  have ctx: "contexts w1 (context_ref w)
               = (contexts w (context_ref w))(constructor_name (heap w a) \<mapsto> a)"
    by (simp add: w1 wire_composite)
  have "contexts (fst (fold wire (a # cs) (w, init))) (context_ref w)
          = contexts (fst (fold wire cs (w1, init1))) (context_ref w1)"
    by (simp add: step c)
  also have "\<dots> = fold (\<lambda>a m. m(constructor_name (heap w1 a) \<mapsto> a)) cs
                      (contexts w1 (context_ref w1))"
    by (rule Cons.IH)
  also have "\<dots> = fold (\<lambda>a m. m(constructor_name (heap w a) \<mapsto> a)) cs
                      (contexts w1 (context_ref w))"
    by (simp only: child c)
  also have "\<dots> = fold (\<lambda>a m. m(constructor_name (heap w a) \<mapsto> a)) (a # cs)
                      (contexts w (context_ref w))"
    by (simp only: ctx fold_simps)
  finally show ?case .
qed

lemma fold_upd_notin:
  "n \<notin> f ` set cs \<Longrightarrow> fold (\<lambda>a m. m(f a \<mapsto> g a)) cs m n = m n"
  by (induction cs arbitrary: m) auto

lemma fold_upd_last:
  assumes "j < length cs" and "f (cs ! j) = n"
    and "\<forall>k. j < k \<and> k < length cs \<longrightarrow> f (cs ! k) \<noteq> n"
  shows "fold (\<lambda>a m. m(f a \<mapsto> g a)) cs m n = Some (g (cs ! j))"
proof -
  have split: "cs = take j cs @ cs ! j # drop (Suc j) cs"
    using assms(1) by (rule id_take_nth_drop)
  have "n \<notin> f ` set (drop (Suc j) cs)"
  proof
    assume "n \<in> f ` set (drop (Suc j) cs)"
    then obtain x where "x \<in> set (drop (Suc j) cs)" and "f x = n" by auto
    then obtain i where "i < length (drop (Suc j) cs)" and "drop (Suc j) cs ! i = x"
      by (auto simp: in_set_conv_nth)
    then have "Suc j + i < length cs" and "cs ! (Suc j + i) = x"
      by auto
    with assms(3) \<open>f x = n\<close> show False
      by (metis add_Suc less_add_Suc1)
  qed
  then have "fold (\<lambda>a m. m(f a \<mapsto> g a)) (drop (Suc j) cs)
               ((fold (\<lambda>a m. m(f a \<mapsto> g a)) (take j cs) m)(f (cs ! j) \<mapsto> g (cs ! j))) n
             = Some (g (cs ! j))"
    by (simp add: fold_upd_notin assms(2))
  moreover have "fold (\<lambda>a m. m(f a \<mapsto> g a)) cs m
      = fold (\<lambda>a m. m(f a \<mapsto> g a)) (drop (Suc j) cs)
               ((fold (\<lambda>a m. m(f a \<mapsto> g a)) (take j cs) m)(f (cs ! j) \<mapsto> g (cs ! j)))"
    by (subst split) simp
  ultimately show ?thesis by simp
qed

lemma compose_all_quiet:
  "\<forall>a \<in> set cs. \<forall>ctx. onComposed (heap w a) ctx = None \<Longrightarrow> compose_all cs w = None"
  by (induction cs) simp_all


lemma set_controllers_result:
  "fst (set_controllers cs w)
     = (case compose_all cs (fst (fold wire cs
              (w\<lparr>internalControllers := cs,
                 contexts := (contexts w)(nextContext w := Map.empty),
                 nextContext := Suc (nextContext w),
                 context_ref := nextContext w\<rparr>, Map.empty))) of
          Some e \<Rightarrow> Inl e | None \<Rightarrow> Inr ())"
  by (simp add: set_controllers_def Let_def split: option.splits)

lemma set_controllers_children:
  "listeners (heap (snd (set_controllers cs w)) b)
     = listeners (heap w b) @ replicate (count_list cs b) (Forward (constructor_name (heap w b)))
   \<and> constructor_name (heap (snd (set_controllers cs w)) b) = constructor_name (heap w b)
   \<and> state (heap (snd (set_controllers cs w)) b) = state (heap w b)
   \<and> onComposed (heap (snd (set_controllers cs w)) b) = onComposed (heap w b)"
  by (simp add: set_controllers_def Let_def fold_wire_child split: option.splits)

lemma set_controllers_composite:
  "internalControllers (snd (set_controllers cs w)) = cs
   \<and> context_ref (snd (set_controllers cs w)) = nextContext w
   \<and> nextContext (snd (set_controllers cs w)) = Suc (nextContext w)
   \<and> deliveries (snd (set_controllers cs w)) = deliveries w"
  by (simp add: set_controllers_def Let_def fold_wire_composite split: option.splits)

lemma set_controllers_context:
  "contexts (snd (set_controllers cs w)) (context_ref (snd (set_controllers cs w)))
     = fold (\<lambda>a m. m(constructor_name (heap w a) \<mapsto> a)) cs Map.empty"
proof -
  let ?w2 = "w\<lparr>internalControllers := cs,
                contexts := (contexts w)(nextContext w := Map.empty),
                nextContext := Suc (nextContext w),
                context_ref := nextContext w\<rparr>"
  have "contexts (fst (fold wire cs (?w2, Map.empty))) (context_ref ?w2)
          = fold (\<lambda>a m. m(constructor_name (heap ?w2 a) \<mapsto> a)) cs (contexts ?w2 (context_ref ?w2))"
    by (rule fold_wire_context)
  then have "contexts (fst (fold wire cs (?w2, Map.empty))) (nextContext w)
          = fold (\<lambda>a m. m(constructor_name (heap w a) \<mapsto> a)) cs Map.empty"
    by simp
  then show ?thesis
    by (simp add: set_controllers_def Let_def fold_wire_composite split: option.splits)
qed

lemma set_controllers_state:
  "fst (set_controllers cs w) = Inr () \<Longrightarrow>
     state (snd (set_controllers cs w))
       = fold (\<lambda>a m. m(constructor_name (heap w a) \<mapsto> state (heap w a))) cs Map.empty"
proof -
  let ?w2 = "w\<lparr>internalControllers := cs,
                contexts := (contexts w)(nextContext w := Map.empty),
                nextContext := Suc (nextContext w),
                context_ref := nextContext w\<rparr>"
  assume ok: "fst (set_controllers cs w) = Inr ()"
  have "snd (fold wire cs (?w2, Map.empty))
          = fold (\<lambda>a m. m(constructor_name (heap ?w2 a) \<mapsto> state (heap ?w2 a))) cs Map.empty"
    by (rule fold_wire_initialState)
  then have "snd (fold wire cs (?w2, Map.empty))
          = fold (\<lambda>a m. m(constructor_name (heap w a) \<mapsto> state (heap w a))) cs Map.empty"
    by simp
  with ok show ?thesis
    by (simp add: set_controllers_def Let_def split: option.splits)
qed

lemma set_controllers_quiet:
  assumes "\<forall>a \<in> set cs. \<forall>ctx. onComposed (heap w a) ctx = None"
  shows "fst (set_controllers cs w) = Inr ()"
proof -
  let ?w3 = "fst (fold wire cs
              (w\<lparr>internalControllers := cs,
                 contexts := (contexts w)(nextContext w := Map.empty),
                 nextContext := Suc (nextContext w),
                 context_ref := nextContext w\<rparr>, Map.empty))"
  from assms have "\<forall>a \<in> set cs. \<forall>ctx. onComposed (heap ?w3 a) ctx = None"
    by (simp add: fold_wire_child)
  then have "compose_all cs ?w3 = None"
    by (rule compose_all_quiet)
  then show ?thesis
    by (simp add: set_controllers_result)
qed

lemma call_listeners_heap:
  "heap (fold (\<lambda>l. call_listener l s) ls w) = heap w"
  by (induction ls arbitrary: w) (simp_all add: call_listener_def split: listener.splits)

lemma call_listeners_deliveries:
  "deliveries (fold (\<lambda>l. call_listener l s) ls w)
     = deliveries w @ map (\<lambda>l. case l of Forward name \<Rightarrow> (name, s)) ls"
  by (induction ls arbitrary: w) (simp_all add: call_listener_def split: listener.splits)

lemma call_listeners_state:
  "state (fold (\<lambda>l. call_listener l s) ls w) n
     = (if Forward n \<in> set ls then Some s else state w n)"
  by (induction ls arbitrary: w) (auto simp: call_listener_def split: listener.splits)

lemma child_update_effect:
  "deliveries (child_update a s w)
     = deliveries w @ map (\<lambda>l. case l of Forward name \<Rightarrow> (name, s)) (listeners (heap w a))
   \<and> state (child_update a s w) n
     = (if Forward n \<in> set (listeners (heap w a)) then Some s else state w n)"
  by (simp add: child_update_def Let_def call_listeners_deliveries call_listeners_state)

text \<open>
  C6, as claimed, fails. The composite is assigned the list with child 0 (an
  AssetsController) and then the list with child 1 alone. The aggregate has no slot for
  child 0 any more, but child 0 still carries the listener of the first assignment: when
  it changes its state, the change is written into the aggregate. When the list with
  child 0 is assigned twice, one change of child 0 is delivered twice.
\<close>

theorem C6_earlier_listener_still_fires_counterexample:
  "internalControllers (snd (set_controllers [1] (snd (set_controllers [0] example_composite))))
     = [1]
   \<and> state (snd (set_controllers [1] (snd (set_controllers [0] example_composite))))
       ''AssetsController'' = None
   \<and> listeners (heap (snd (set_controllers [1] (snd (set_controllers [0] example_composite)))) 0)
       = [Forward ''AssetsController'']
   \<and> state (child_update 0 7
        (snd (set_controllers [1] (snd (set_controllers [0] example_composite)))))
       ''AssetsController'' = Some 7
   \<and> deliveries (child_update 0 7
        (snd (set_controllers [0] (snd (set_controllers [0] example_composite)))))
       = [(''AssetsController'', 7), (''AssetsController'', 7)]"
  by (simp add: set_controllers_def wire_def subscribe_def child_update_def call_listener_def
      Let_def example_composite_def new_ComposableController_def example_names_def)

text \<open>
  C6, amended. An assignment replaces the list and the context map (the new map holds
  the children of the new list only) and appends one forwarding listener to a child for
  each time the new list mentions it. Every listener a child carried before the
  assignment is still there: nothing is unsubscribed. A state change of a child is
  delivered into the aggregate once for each listener it carries, whether or not the
  child is in the current list.
\<close>

theorem C6_assignment_only_adds_listeners:
  "internalControllers (snd (set_controllers cs w)) = cs
   \<and> contexts (snd (set_controllers cs w)) (context_ref (snd (set_controllers cs w)))
       = fold (\<lambda>a m. m(constructor_name (heap w a) \<mapsto> a)) cs Map.empty
   \<and> listeners (heap (snd (set_controllers cs w)) b)
       = listeners (heap w b) @ replicate (count_list cs b) (Forward (constructor_name (heap w b)))
   \<and> deliveries (child_update a s w)
       = deliveries w @ map (\<lambda>l. case l of Forward name \<Rightarrow> (name, s)) (listeners (heap w a))
   \<and> state (child_update a s w) n
       = (if Forward n \<in> set (listeners (heap w a)) then Some s else state w n)"
proof (intro conjI)
  show "internalControllers (snd (set_controllers cs w)) = cs"
    by (simp add: set_controllers_composite)
  show "contexts (snd (set_controllers cs w)) (context_ref (snd (set_controllers cs w)))
       = fold (\<lambda>a m. m(constructor_name (heap w a) \<mapsto> a)) cs Map.empty"
    by (rule set_controllers_context)
  show "listeners (heap (snd (set_controllers cs w)) b)
       = listeners (heap w b) @ replicate (count_list cs b) (Forward (constructor_name (heap w b)))"
    by (simp add: set_controllers_children)
  show "deliveries (child_update a s w)
       = deliveries w @ map (\<lambda>l. case l of Forward name \<Rightarrow> (name, s)) (listeners (heap w a))"
    by (simp add: child_update_effect)
  show "state (child_update a s w) n
       = (if Forward n \<in> set (listeners (heap w a)) then Some s else state w n)"
    by (simp add: child_update_effect)
qed

text \<open>
  C7. If the child at position \<open>j\<close> of the assigned list reports the name \<open>n\<close> and no
  child after it does, then the slot \<open>n\<close> of the new context map holds that child,
  whatever children before it report the same name, and no other child; when the
  setter returns normally the slot \<open>n\<close> of the aggregate state holds that child's state.
  The setter throws only what an \<open>onComposed\<close> hook throws: if no hook of a listed child
  throws, it returns normally, duplicates or not.
\<close>

theorem C7_later_child_overwrites_slot:
  "j < length cs \<and> constructor_name (heap w (cs ! j)) = n
   \<and> (\<forall>k. j < k \<and> k < length cs \<longrightarrow> constructor_name (heap w (cs ! k)) \<noteq> n) \<longrightarrow>
     contexts (snd (set_controllers cs w)) (context_ref (snd (set_controllers cs w))) n
       = Some (cs ! j)
     \<and> (\<forall>i. i < j \<and> cs ! i \<noteq> cs ! j \<longrightarrow>
          contexts (snd (set_controllers cs w)) (context_ref (snd (set_controllers cs w))) n
            \<noteq> Some (cs ! i))
     \<and> (fst (set_controllers cs w) = Inr () \<longrightarrow>
          state (snd (set_controllers cs w)) n = Some (state (heap w (cs ! j))))
     \<and> ((\<forall>a \<in> set cs. \<forall>ctx. onComposed (heap w a) ctx = None) \<longrightarrow>
          fst (set_controllers cs w) = Inr ())"
proof (intro impI conjI allI)
  assume h: "j < length cs \<and> constructor_name (heap w (cs ! j)) = n
   \<and> (\<forall>k. j < k \<and> k < length cs \<longrightarrow> constructor_name (heap w (cs ! k)) \<noteq> n)"
  then have j: "j < length cs" and nm: "constructor_name (heap w (cs ! j)) = n"
    and last: "\<forall>k. j < k \<and> k < length cs \<longrightarrow> constructor_name (heap w (cs ! k)) \<noteq> n"
    by simp_all
  show slot: "contexts (snd (set_controllers cs w)) (context_ref (snd (set_controllers cs w))) n
       = Some (cs ! j)"
    unfolding set_controllers_context
    using fold_upd_last [where f = "\<lambda>a. constructor_name (heap w a)" and g = "\<lambda>a. a",
        OF j nm last] by simp
  show "contexts (snd (set_controllers cs w)) (context_ref (snd (set_controllers cs w))) n
            \<noteq> Some (cs ! i)"
    if "i < j \<and> cs ! i \<noteq> cs ! j" for i
    using that by (simp add: slot)
  show "state (snd (set_controllers cs w)) n = Some (state (heap w (cs ! j)))"
    if "fst (set_controllers cs w) = Inr ()"
    unfolding set_controllers_state [OF that]
    using fold_upd_last [where f = "\<lambda>a. constructor_name (heap w a)"
        and g = "\<lambda>a. state (heap w a)", OF j nm last] by simp
  show "fst (set_controllers cs w) = Inr ()"
    if "\<forall>a \<in> set cs. \<forall>ctx. onComposed (heap w a) ctx = None"
    using that by (rule set_controllers_quiet)
qed

theorem C7_later_child_witness:
  "(2::nat) < length [0, 1, 2::nat]
   \<and> constructor_name (heap example_composite ([0, 1, 2] ! 0)) = ''AssetsController''
   \<and> constructor_name (heap example_composite ([0, 1, 2] ! 2)) = ''AssetsController''
   \<and> contexts (snd (set_controllers [0, 1, 2] example_composite))
        (context_ref (snd (set_controllers [0, 1, 2] example_composite))) ''AssetsController''
       = Some 2
   \<and> fst (set_controllers [0, 1, 2] example_composite) = Inr ()
   \<and> state (snd (set_controllers [0, 1, 2] example_composite)) ''AssetsController'' = Some 20"
proof -
  have h: "(2::nat) < length [0, 1, 2::nat]
     \<and> constructor_name (heap example_composite ([0, 1, 2] ! 2)) = ''AssetsController''
     \<and> (\<forall>k. 2 < k \<and> k < length [0, 1, 2::nat]
           \<longrightarrow> constructor_name (heap example_composite ([0, 1, 2] ! k)) \<noteq> ''AssetsController'')"
    by (simp add: example_composite_def new_ComposableController_def example_names_def)
  have first: "constructor_name (heap example_composite ([0, 1, 2] ! 0)) = ''AssetsController''"
    by (simp add: example_composite_def new_ComposableController_def example_names_def)
  have hooks: "\<forall>a \<in> set [0, 1, 2::nat]. \<forall>ctx. onComposed (heap example_composite a) ctx = None"
    by (simp add: example_composite_def new_ComposableController_def)
  have st: "state (heap example_composite ([0, 1, 2] ! 2)) = 20"
    by (simp add: example_composite_def new_ComposableController_def)
  note c7 = C7_later_child_overwrites_slot
              [of 2 "[0, 1, 2]" example_composite "''AssetsController''"]
  from c7 h have slot: "contexts (snd (set_controllers [0, 1, 2] example_composite))
        (context_ref (snd (set_controllers [0, 1, 2] example_composite))) ''AssetsController''
       = Some ([0, 1, 2] ! 2)"
    by blast
  from c7 h hooks have ok: "fst (set_controllers [0, 1, 2] example_composite) = Inr ()"
    by blast
  from c7 h ok have agg: "state (snd (set_controllers [0, 1, 2] example_composite))
        ''AssetsController'' = Some (state (heap example_composite ([0, 1, 2] ! 2)))"
    by blast
  from h first slot ok agg st show ?thesis by simp
qed

end
